theory Spec2Isabelle
  imports Main "HOL-Library.Word"
begin

section \<open>Shared data: errors and outcomes\<close>

text \<open>
  The Go code builds its errors with \<open>errors.New\<close> and \<open>fmt.Errorf\<close>; the model keeps
  the message. Errors that come out of the database driver, the operating system or a
  codec library are passed through unchanged and carry whatever the library reported.
\<close>

datatype error =
    ErrorString string
  | Errorf string "string list"
  | LibError string

text \<open>
  A Go call either returns or panics (a nil pointer dereference, a failed type assertion,
  an index out of range).
\<close>

datatype 'a outcome = Panic | Returned 'a

section \<open>Identifier validation (package mysqldb)\<close>

subsection \<open>The regular expressions of \<open>CheckTableName\<close>\<close>

text \<open>
  \<open>regexp.MatchString\<close> reports whether the string contains a match of the pattern.
  Only the constructs of the two patterns of the source are modelled: \<open>^\<close> (start of
  text), \<open>$\<close> (end of text; Go's \<open>$\<close> without the \<open>m\<close> flag matches at the very end
  only), a character class given by its ranges, and the class under \<open>*\<close> and \<open>+\<close>.
  Strings are byte lists. The classes hold ASCII characters only, so a byte above 127
  (part of a longer rune, or an invalid one) is in no class.
\<close>

type_synonym charclass = "(char \<times> char) list"

definition in_class :: "charclass \<Rightarrow> char \<Rightarrow> bool" where
  "in_class rs c =
     list_ex (\<lambda>(lo, hi). (of_char lo :: nat) \<le> of_char c \<and> (of_char c :: nat) \<le> of_char hi) rs"

datatype piece =
    BeginText
  | EndText
  | One charclass
  | Star charclass
  | Plus charclass

fun match_here :: "piece list \<Rightarrow> bool \<Rightarrow> string \<Rightarrow> bool" where
  "match_here [] at_start s = True"
| "match_here (BeginText # ps) at_start s = (at_start \<and> match_here ps at_start s)"
| "match_here (EndText # ps) at_start s = (s = [] \<and> match_here ps at_start s)"
| "match_here (One k # ps) at_start [] = False"
| "match_here (One k # ps) at_start (c # cs) = (in_class k c \<and> match_here ps False cs)"
| "match_here (Plus k # ps) at_start [] = False"
| "match_here (Plus k # ps) at_start (c # cs) = (in_class k c \<and> match_here (Star k # ps) False cs)"
| "match_here (Star k # ps) at_start [] = match_here ps at_start []"
| "match_here (Star k # ps) at_start (c # cs) =
     (match_here ps at_start (c # cs) \<or> (in_class k c \<and> match_here (Star k # ps) False cs))"

text \<open>The search for a match tries every start position, the first one being the start of the text.\<close>

fun search :: "piece list \<Rightarrow> bool \<Rightarrow> string \<Rightarrow> bool" where
  "search ps at_start [] = match_here ps at_start []"
| "search ps at_start (c # cs) = (match_here ps at_start (c # cs) \<or> search ps False cs)"

text \<open>
  \<open>regexp.MatchString(pattern, s)\<close> returns \<open>(matched, err)\<close>; \<open>err\<close> is the pattern's
  compilation error. The two patterns of the source compile, so the error is nil.
\<close>

definition MatchString :: "piece list \<Rightarrow> string \<Rightarrow> bool \<times> error option" where
  "MatchString pattern s = (search pattern True s, None)"

text \<open>\<^verbatim>\<open>^[_A-Za-z]+\<close>\<close>

definition pattern_start :: "piece list" where
  "pattern_start = [BeginText, Plus [(CHR ''_'', CHR ''_''), (CHR ''A'', CHR ''Z''), (CHR ''a'', CHR ''z'')]]"

text \<open>\<^verbatim>\<open>^[_A-Za-z0-9]*$\<close>\<close>

definition pattern_all :: "piece list" where
  "pattern_all =
     [BeginText,
      Star [(CHR ''_'', CHR ''_''), (CHR ''A'', CHR ''Z''), (CHR ''a'', CHR ''z''), (CHR ''0'', CHR ''9'')],
      EndText]"

definition CheckTableName :: "string \<Rightarrow> bool" where
  "CheckTableName tableName =
     (case MatchString pattern_start tableName of (match, err) \<Rightarrow>
        if err \<noteq> None \<or> \<not> match then False
        else (case MatchString pattern_all tableName of (match2, err2) \<Rightarrow>
                err2 = None \<and> match2))"

definition CheckDatabaseName :: "string \<Rightarrow> bool" where
  "CheckDatabaseName databaseName = CheckTableName databaseName"

text \<open>The two character sets, written out character by character.\<close>

definition is_letter_or_underscore :: "char \<Rightarrow> bool" where
  "is_letter_or_underscore c =
     (c = CHR ''_'' \<or> (65 \<le> (of_char c :: nat) \<and> (of_char c :: nat) \<le> 90)
       \<or> (97 \<le> (of_char c :: nat) \<and> (of_char c :: nat) \<le> 122))"

definition is_identifier_char :: "char \<Rightarrow> bool" where
  "is_identifier_char c =
     (is_letter_or_underscore c \<or> (48 \<le> (of_char c :: nat) \<and> (of_char c :: nat) \<le> 57))"

section \<open>Encoding utilities (package conv)\<close>

subsection \<open>\<open>strings.NewReplacer(...).Replace\<close>\<close>

text \<open>
  The replacer walks the string from left to right. At each position it takes the first
  pair, in argument order, whose old string starts there, writes the new string and
  continues after the match; where no old string starts, the byte is copied. No old
  string of the source is empty.
\<close>

definition HasPrefix :: "string \<Rightarrow> string \<Rightarrow> bool" where
  "HasPrefix s p = (take (length p) s = p)"

definition lookup_pair :: "(string \<times> string) list \<Rightarrow> string \<Rightarrow> (string \<times> string) option" where
  "lookup_pair oldnew s = find (\<lambda>(old, new). old \<noteq> [] \<and> HasPrefix s old) oldnew"

function Replace :: "(string \<times> string) list \<Rightarrow> string \<Rightarrow> string" where
  "Replace oldnew [] = []"
| "Replace oldnew (c # cs) =
     (case lookup_pair oldnew (c # cs) of
        Some (old, new) \<Rightarrow> new @ Replace oldnew (drop (length old) (c # cs))
      | None \<Rightarrow> c # Replace oldnew cs)"
  by pat_completeness auto
termination
proof (relation "measure (\<lambda>(oldnew, s). length s)")
  show "wf (measure (\<lambda>(oldnew, s). length s))" by simp
next
  fix oldnew :: "(string \<times> string) list" and c :: char and cs x2 x y
  assume "lookup_pair oldnew (c # cs) = Some x2" and "(x, y) = x2"
  then have "x \<noteq> []"
    by (auto simp: lookup_pair_def dest: find_Some_iff [THEN iffD1])
  then show "((oldnew, drop (length x) (c # cs)), oldnew, c # cs) \<in> measure (\<lambda>(oldnew, s). length s)"
    by (cases x) simp_all
next
  fix oldnew :: "(string \<times> string) list" and c :: char and cs
  show "((oldnew, cs), oldnew, c # cs) \<in> measure (\<lambda>(oldnew, s). length s)" by simp
qed

subsection \<open>The codec libraries\<close>

text \<open>
  The codecs are libraries outside the repository: \<open>encoding/base64\<close>,
  \<open>github.com/mtraver/base91\<close> and \<open>encoding/json\<close>. The functions of package conv take
  them as parameters: an encoder maps bytes to text, a decoder returns the bytes it
  decoded together with its error (nil on success), as \<open>DecodeString\<close> does.
\<close>

type_synonym encoder = "string \<Rightarrow> string"
type_synonym decoder = "string \<Rightarrow> string \<times> error option"

subsection \<open>Base64 and Base64URL\<close>

definition Base64_encode :: "encoder \<Rightarrow> string \<Rightarrow> string" where
  "Base64_encode EncodeToString dataString =
     (if dataString = [] then dataString else EncodeToString dataString)"

definition Base64_decode :: "decoder \<Rightarrow> string \<Rightarrow> string \<times> error option" where
  "Base64_decode DecodeString dataString =
     (if dataString = [] then (dataString, None)
      else (case DecodeString dataString of (dataBytes, err) \<Rightarrow>
              ((if err \<noteq> None then [] else dataBytes), err)))"

definition Base64url_encode :: "encoder \<Rightarrow> string \<Rightarrow> string" where
  "Base64url_encode EncodeToString dataString =
     (if dataString = [] then dataString
      else Replace [(''+'', ''-''), (''/'', ''_''), (''='', [])]
             (Base64_encode EncodeToString dataString))"

text \<open>The \<open>switch len(dataString) % 4\<close> that restores the padding.\<close>

definition pad4 :: "string \<Rightarrow> string" where
  "pad4 dataString =
     (if length dataString mod 4 = 2 then dataString @ ''==''
      else if length dataString mod 4 = 3 then dataString @ ''=''
      else dataString)"

definition Base64url_decode :: "decoder \<Rightarrow> string \<Rightarrow> string \<times> error option" where
  "Base64url_decode DecodeString dataString =
     (if dataString = [] then (dataString, None)
      else Base64_decode DecodeString
             (pad4 (Replace [(''-'', ''+''), (''_'', ''/'')] dataString)))"

subsection \<open>Base91\<close>

definition Base91_encode :: "encoder \<Rightarrow> string \<Rightarrow> bool \<Rightarrow> string" where
  "Base91_encode EncodeToString dataString escapeBool =
     (if dataString = [] then dataString
      else (let encoded = EncodeToString dataString in
            if escapeBool
            then Replace [([CHR 0x22], ''-q''), ([CHR 0x24], ''-d''), ([CHR 0x60], ''-g'')] encoded
            else encoded))"

definition Base91_decode :: "decoder \<Rightarrow> string \<Rightarrow> bool \<Rightarrow> string \<times> error option" where
  "Base91_decode DecodeString dataString unescapeBool =
     (if dataString = [] then (dataString, None)
      else (let unescaped =
                  (if unescapeBool
                   then Replace [(''-g'', [CHR 0x60]), (''-d'', [CHR 0x24]), (''-q'', [CHR 0x22])] dataString
                   else dataString)
            in case DecodeString unescaped of (dataBytes, err) \<Rightarrow>
                 ((if err \<noteq> None then [] else dataBytes), err)))"

subsection \<open>JSON\<close>

text \<open>
  \<open>json.Unmarshal\<close> fills the interface it is given and returns its error. The value
  type is a parameter; \<open>None\<close> is the nil interface.
\<close>

definition JSON_decode :: "(string \<Rightarrow> 'v option \<times> error option) \<Rightarrow> string \<Rightarrow> 'v option \<times> error option" where
  "JSON_decode Unmarshal jsonString =
     (case Unmarshal jsonString of (jsonInterface, err) \<Rightarrow>
        ((if err \<noteq> None then None else jsonInterface), err))"

subsection \<open>The standard codecs, as the libraries define them\<close>

text \<open>
  Models of \<open>base64.StdEncoding\<close> (RFC 4648, padded, not strict) and of
  \<open>base91.StdEncoding\<close> (basE91), the two codecs package conv is used with. A corrupt
  input error carries the offending offset in Go; the model leaves the offset out.
\<close>

fun index_of :: "'a \<Rightarrow> 'a list \<Rightarrow> nat option" where
  "index_of x [] = None"
| "index_of x (y # ys) = (if x = y then Some 0 else map_option Suc (index_of x ys))"

definition encodeStd64 :: string where
  "encodeStd64 = ''ABCDEFGHIJKLMNOPQRSTUVWXYZabcdefghijklmnopqrstuvwxyz0123456789+/''"

definition enc64 :: "nat \<Rightarrow> char" where
  "enc64 i = encodeStd64 ! i"

definition CorruptInput64 :: error where
  "CorruptInput64 = LibError ''illegal base64 data''"

text \<open>\<open>Encode\<close>: three bytes make four characters; one or two remaining bytes are padded.\<close>

fun b64_EncodeToString :: "string \<Rightarrow> string" where
  "b64_EncodeToString [] = []"
| "b64_EncodeToString [a] =
     (let val = (of_char a :: nat) * 65536 in
      [enc64 (val div 262144 mod 64), enc64 (val div 4096 mod 64), CHR ''='', CHR ''=''])"
| "b64_EncodeToString [a, b] =
     (let val = (of_char a :: nat) * 65536 + of_char b * 256 in
      [enc64 (val div 262144 mod 64), enc64 (val div 4096 mod 64), enc64 (val div 64 mod 64), CHR ''=''])"
| "b64_EncodeToString (a # b # c # rest) =
     (let val = (of_char a :: nat) * 65536 + of_char b * 256 + of_char c in
      [enc64 (val div 262144 mod 64), enc64 (val div 4096 mod 64), enc64 (val div 64 mod 64),
       enc64 (val mod 64)] @ b64_EncodeToString rest)"

text \<open>
  \<open>decodeQuantum\<close>, quantum after quantum, on the input without its carriage returns and
  line feeds (the decoder skips them wherever they stand). The bytes decoded before an
  error are returned with it.
\<close>

definition quantum_bytes :: "nat \<Rightarrow> nat \<Rightarrow> nat \<Rightarrow> nat \<Rightarrow> nat \<Rightarrow> string" where
  "quantum_bytes v0 v1 v2 v3 dlen =
     (let val = v0 * 262144 + v1 * 4096 + v2 * 64 + v3 in
      take (dlen - 1) [char_of (val div 65536), char_of (val div 256), char_of val])"

fun decodeQuanta :: "string \<Rightarrow> string \<times> error option" where
  "decodeQuanta [] = ([], None)"
| "decodeQuanta (a # b # c # d # rest) =
     (case (index_of a encodeStd64, index_of b encodeStd64) of
        (Some v0, Some v1) \<Rightarrow>
          (case index_of c encodeStd64 of
             Some v2 \<Rightarrow>
               (case index_of d encodeStd64 of
                  Some v3 \<Rightarrow>
                    (case decodeQuanta rest of (out, err) \<Rightarrow> (quantum_bytes v0 v1 v2 v3 4 @ out, err))
                | None \<Rightarrow>
                    if d = CHR ''=''
                    then (quantum_bytes v0 v1 v2 0 3, if rest = [] then None else Some CorruptInput64)
                    else ([], Some CorruptInput64))
           | None \<Rightarrow>
               if c = CHR ''='' \<and> d = CHR ''=''
               then (quantum_bytes v0 v1 0 0 2, if rest = [] then None else Some CorruptInput64)
               else ([], Some CorruptInput64))
      | _ \<Rightarrow> ([], Some CorruptInput64))"
| "decodeQuanta short = ([], Some CorruptInput64)"

definition b64_DecodeString :: "string \<Rightarrow> string \<times> error option" where
  "b64_DecodeString s = decodeQuanta (filter (\<lambda>c. c \<noteq> CHR 0x0A \<and> c \<noteq> CHR 0x0D) s)"

definition encodeStd91 :: string where
  "encodeStd91 =
     ''ABCDEFGHIJKLMNOPQRSTUVWXYZabcdefghijklmnopqrstuvwxyz0123456789!#$%&()*+,./:;<=>?@[]^_'' @
     [CHR 0x60] @ ''{|}~'' @ [CHR 0x22]"

definition enc91 :: "nat \<Rightarrow> char" where
  "enc91 i = encodeStd91 ! i"

definition CorruptInput91 :: error where
  "CorruptInput91 = LibError ''illegal base91 data''"

text \<open>
  \<open>Encode\<close>: the bytes are pushed on a bit queue, low bits first; as soon as the queue
  holds more than 13 bits, 13 of them (14 when the 13-bit value is at most 88) leave as
  two characters. The queue stays below \<open>2 ^ 21\<close>, far from the width of Go's \<open>uint\<close>.
\<close>

fun b91_encode_from :: "nat \<Rightarrow> nat \<Rightarrow> string \<Rightarrow> string" where
  "b91_encode_from queue numBits [] =
     (if numBits > 0
      then enc91 (queue mod 91) # (if numBits > 7 \<or> queue > 90 then [enc91 (queue div 91)] else [])
      else [])"
| "b91_encode_from queue numBits (b # src) =
     (let queue = or queue (push_bit numBits (of_char b)); numBits = numBits + 8 in
      if numBits > 13 then
        (let v = and queue 8191 in
         if v > 88
         then enc91 (v mod 91) # enc91 (v div 91) # b91_encode_from (drop_bit 13 queue) (numBits - 13) src
         else (let v = and queue 16383 in
               enc91 (v mod 91) # enc91 (v div 91) # b91_encode_from (drop_bit 14 queue) (numBits - 14) src))
      else b91_encode_from queue numBits src)"

definition b91_EncodeToString :: "string \<Rightarrow> string" where
  "b91_EncodeToString src = b91_encode_from 0 0 src"

text \<open>The \<open>do ... while numBits > 7\<close> loop of \<open>Decode\<close>: it writes one byte at least.\<close>

function emit_bytes :: "nat \<Rightarrow> nat \<Rightarrow> string \<times> nat \<times> nat" where
  "emit_bytes queue numBits =
     (let byte = char_of queue; queue = drop_bit 8 queue; numBits = numBits - 8 in
      if numBits > 7
      then (case emit_bytes queue numBits of (out, q, n) \<Rightarrow> (byte # out, q, n))
      else ([byte], queue, numBits))"
  by pat_completeness auto
termination
  by (relation "measure (\<lambda>(queue, numBits). numBits)") auto

declare emit_bytes.simps [simp del]

text \<open>\<open>v\<close> is \<open>-1\<close> in Go while no value is started: \<open>None\<close> here.\<close>

fun b91_decode_from :: "nat \<Rightarrow> nat \<Rightarrow> nat option \<Rightarrow> string \<Rightarrow> string \<times> error option" where
  "b91_decode_from queue numBits v [] =
     (case v of
        None \<Rightarrow> ([], None)
      | Some w \<Rightarrow> ([char_of (or queue (push_bit numBits w))], None))"
| "b91_decode_from queue numBits v (c # src) =
     (case index_of c encodeStd91 of
        None \<Rightarrow> ([], Some CorruptInput91)
      | Some d \<Rightarrow>
          (case v of
             None \<Rightarrow> b91_decode_from queue numBits (Some d) src
           | Some w \<Rightarrow>
               (let w = w + d * 91;
                    queue = or queue (push_bit numBits w);
                    numBits = (if and w 8191 > 88 then numBits + 13 else numBits + 14)
                in case emit_bytes queue numBits of (out, queue, numBits) \<Rightarrow>
                     (case b91_decode_from queue numBits None src of (more, err) \<Rightarrow> (out @ more, err)))))"

definition b91_DecodeString :: "string \<Rightarrow> string \<times> error option" where
  "b91_DecodeString s = b91_decode_from 0 0 None s"

section \<open>Filesystem utilities (package file)\<close>

subsection \<open>Library functions: \<open>strings\<close> and \<open>path/filepath\<close>\<close>


definition TrimRight :: "string \<Rightarrow> string \<Rightarrow> string" where
  "TrimRight s cutset = rev (dropWhile (\<lambda>c. c \<in> set cutset) (rev s))"

text \<open>
  The package writes its paths with \<open>/\<close>; where \<open>/\<close> is the separator (every system but
  Windows), \<open>filepath.FromSlash\<close> returns its argument and there is no volume name.
\<close>

definition FromSlash :: "string \<Rightarrow> string" where
  "FromSlash path = path"




subsection \<open>The caller's source location\<close>

text \<open>
  \<open>runtime.Caller(1)\<close> returns the program counter, the file and the line of the caller
  of the function that asks, and whether they could be found; \<open>callerResolved\<close> tells whether
  \<open>runtime.FuncForPC\<close> knows the function at that program counter. The model takes the
  answer as an argument of each function that asks.
\<close>

record caller =
  callerFile :: string
  callerLine :: int
  callerOk :: bool
  callerResolved :: bool


subsection \<open>Path functions\<close>







subsection \<open>The file system\<close>

text \<open>
  The files and their contents, together with what the operating system answers when a
  file is opened for appending or written to: an error on opening, or an error after
  some bytes of the data were written. \<open>LockValue\<close> is the counter of \<open>FileMutex\<close>;
  the model is sequential, so the mutex itself never blocks.
\<close>

record filesystem =
  files :: "string \<rightharpoonup> string"
  open_error :: "string \<Rightarrow> error option"
  write_error :: "string \<Rightarrow> (nat \<times> error) option"
  LockValue :: int

definition lock :: "filesystem \<Rightarrow> filesystem" where
  "lock fs = fs\<lparr>LockValue := LockValue fs + 1\<rparr>"

definition unlock :: "filesystem \<Rightarrow> filesystem" where
  "unlock fs = fs\<lparr>LockValue := LockValue fs - 1\<rparr>"

definition FilePathExists :: "filesystem \<Rightarrow> string \<Rightarrow> bool" where
  "FilePathExists fs filePath = (files fs (FromSlash filePath) \<noteq> None)"

text \<open>
  \<open>os.OpenFile\<close> with \<open>O_APPEND|O_CREATE|O_WRONLY\<close> creates the file when it is missing;
  nothing is written when the data is empty.
\<close>

definition FileAppend :: "filesystem \<Rightarrow> string \<Rightarrow> string \<Rightarrow> filesystem \<times> error option" where
  "FileAppend fs0 filePath0 data =
     (let fs = lock fs0; filePath = FromSlash filePath0 in
      case open_error fs filePath of
        Some err \<Rightarrow> (unlock fs, Some err)
      | None \<Rightarrow>
          (let content = (case files fs filePath of None \<Rightarrow> [] | Some old \<Rightarrow> old) in
           if data \<noteq> [] then
             (case write_error fs filePath of
                Some (n, err) \<Rightarrow>
                  (unlock (fs\<lparr>files := (files fs)(filePath \<mapsto> content @ take n data)\<rparr>), Some err)
              | None \<Rightarrow>
                  (unlock (fs\<lparr>files := (files fs)(filePath \<mapsto> content @ data)\<rparr>), None))
           else (unlock (fs\<lparr>files := (files fs)(filePath \<mapsto> content)\<rparr>), None)))"

subsection \<open>The log\<close>

text \<open>\<open>fmt\<close>'s verbs: \<open>%d\<close>, \<open>%02d\<close> (the sign counts in the width) and \<open>%02X\<close> of a byte.\<close>

definition digit_char :: "nat \<Rightarrow> char" where
  "digit_char n = ''0123456789ABCDEF'' ! n"

fun digits :: "nat \<Rightarrow> string" where
  "digits n = (if n < 10 then [digit_char n] else digits (n div 10) @ [digit_char (n mod 10)])"

declare digits.simps [simp del]

definition format_d :: "int \<Rightarrow> string" where
  "format_d n = (if n < 0 then CHR ''-'' # digits (nat (- n)) else digits (nat n))"

definition format_02d :: "int \<Rightarrow> string" where
  "format_02d n =
     (if n < 0 then CHR ''-'' # digits (nat (- n))
      else if n < 10 then CHR ''0'' # digits (nat n)
      else digits (nat n))"

definition format_02X :: "char \<Rightarrow> string" where
  "format_02X b = [digit_char ((of_char b :: nat) div 16), digit_char ((of_char b :: nat) mod 16)]"

text \<open>The two steps that escape the message: the replacer, then the loop over the bytes.\<close>

definition escape_controls :: "string \<Rightarrow> string" where
  "escape_controls messageString =
     Replace [([CHR 0x5C], [CHR 0x5C, CHR 0x5C]), ([CHR 0x09], [CHR 0x5C, CHR ''t'']),
              ([CHR 0x0A], [CHR 0x5C, CHR ''n'']), ([CHR 0x0D], [CHR 0x5C, CHR ''r''])]
       messageString"

fun escape_bytes :: "string \<Rightarrow> string" where
  "escape_bytes [] = []"
| "escape_bytes (charByte # rest) =
     (if 0x20 \<le> (of_char charByte :: nat) \<and> (of_char charByte :: nat) < 0x7F
      then charByte # escape_bytes rest
      else [CHR 0x5C, CHR ''x''] @ format_02X charByte @ escape_bytes rest)"

text \<open>The clock: \<open>time.Now().UnixMicro()\<close> and the fields of \<open>time.Now().UTC()\<close>.\<close>

record clock =
  utm :: int
  Year :: int
  Month :: int
  Day :: int
  Hour :: int
  Minute :: int
  Second :: int

definition header_line :: string where
  "header_line =
     ''utm'' @ [CHR 0x09] @ ''cymd'' @ [CHR 0x09] @ ''hms'' @ [CHR 0x09] @ ''path'' @ [CHR 0x09] @
     ''filename'' @ [CHR 0x09] @ ''line'' @ [CHR 0x09] @ ''error'' @ [CHR 0x0A]"

text \<open>\<open>filepath.Split\<close>: the directory up to and with the last slash, and the rest.\<close>

definition Split :: "string \<Rightarrow> string \<times> string" where
  "Split path =
     (let rest = rev (takeWhile (\<lambda>c. c \<noteq> CHR ''/'') (rev path)) in
      (take (length path - length rest) path, rest))"

definition log_line :: "clock \<Rightarrow> string \<Rightarrow> string \<Rightarrow> int \<Rightarrow> string \<Rightarrow> string" where
  "log_line t callingPath callingFilename callingLineNumber escapedMessageString =
     format_d (utm t) @ [CHR 0x09] @
     format_d (Year t) @ format_02d (Month t) @ format_02d (Day t) @ [CHR 0x09] @
     format_02d (Hour t) @ format_02d (Minute t) @ format_02d (Second t) @ [CHR 0x09] @
     callingPath @ [CHR 0x09] @
     callingFilename @ [CHR 0x09] @
     format_d callingLineNumber @ [CHR 0x09] @
     escapedMessageString @ [CHR 0x0A]"

definition Log :: "filesystem \<Rightarrow> clock \<Rightarrow> caller \<Rightarrow> string \<Rightarrow> filesystem \<times> error option" where
  "Log fs0 t c messageString =
     (let fs = lock fs0;
          logFilePath = ''/tmp/golang.log'';
          logLineString = (if \<not> FilePathExists fs logFilePath then header_line else []);
          (callingPath, callingFilename) =
             (if callerOk c \<and> callerResolved c
              then (case Split (callerFile c) of (dir, name) \<Rightarrow> (TrimRight dir ''/'', name))
              else ([], []));
          escapedMessageString = escape_bytes (escape_controls messageString);
          logLineString = logLineString @
             log_line t callingPath callingFilename (callerLine c) escapedMessageString
      in case FileAppend fs logFilePath logLineString of (fs', err) \<Rightarrow> (unlock fs', err))"

section \<open>Database wrappers: what \<open>database/sql\<close> provides\<close>

text \<open>
  A value of type \<open>any\<close>, by its dynamic type. \<open>int\<close> and \<open>uint\<close> have 64 bits; a float is
  its bit pattern. \<open>VPtr i\<close> is the pointer \<open>&scans[i]\<close> that \<open>ScanRows\<close> stores in
  \<open>scans[i]\<close> before it scans.
\<close>

datatype go_value =
    VNil
  | VBytes string
  | VString string
  | VBool bool
  | VInt "64 word"
  | VInt8 "8 word"
  | VInt16 "16 word"
  | VInt32 "32 word"
  | VInt64 "64 word"
  | VUint "64 word"
  | VUint8 "8 word"
  | VUint16 "16 word"
  | VUint32 "32 word"
  | VUint64 "64 word"
  | VFloat32 "32 word"
  | VFloat64 "64 word"
  | VTime string
  | VPtr nat

text \<open>
  A result cursor (\<open>*sql.Rows\<close>): whether it is closed, its columns (name and database
  type name), and what the iteration meets, row after row. \<open>RowReady vs\<close>: \<open>Next\<close>
  returns true and \<open>Scan\<close> has the values \<open>vs\<close> to assign. \<open>ScanFails e\<close>: \<open>Next\<close> returns
  true and \<open>Scan\<close> returns \<open>e\<close>, assigning nothing. \<open>NextFails e\<close>: the driver fails to
  fetch the row; \<open>Next\<close> returns false and \<open>e\<close> is what \<open>Err\<close> would report.
\<close>

datatype fetch =
    RowReady "go_value list"
  | ScanFails error
  | NextFails error

record cursor =
  closed :: bool
  cols :: "(string \<times> string) list"
  fetches :: "fetch list"

definition errRowsClosed :: error where
  "errRowsClosed = LibError ''sql: Rows are closed''"

definition Columns :: "cursor \<Rightarrow> error + string list" where
  "Columns rows = (if closed rows then Inl errRowsClosed else Inr (map fst (cols rows)))"

definition ColumnTypes :: "cursor \<Rightarrow> error + (string \<times> string) list" where
  "ColumnTypes rows = (if closed rows then Inl errRowsClosed else Inr (cols rows))"

text \<open>
  \<open>Scan\<close> into destinations of type \<open>*any\<close>: every value is assigned as it is. It fails,
  assigning nothing, when the number of destinations is not the number of values.
\<close>

definition expected_destinations :: error where
  "expected_destinations = LibError ''sql: expected destination arguments in Scan''"

definition Scan_any :: "fetch \<Rightarrow> go_value list \<Rightarrow> go_value list \<times> error option" where
  "Scan_any current dest =
     (case current of
        RowReady vs \<Rightarrow>
          if length vs = length dest then (vs, None) else (dest, Some expected_destinations)
      | ScanFails e \<Rightarrow> (dest, Some e)
      | NextFails e \<Rightarrow> (dest, Some e))"

text \<open>
  An open handle (\<open>*sql.DB\<close>, not nil): what the driver answers. \<open>QueryRow\<close> returns a
  \<open>*sql.Row\<close>, which holds the cursor or the error of the query until it is scanned.
\<close>

type_synonym sql_result = "int \<times> int"

record handle =
  db_Exec :: "string \<Rightarrow> go_value list \<Rightarrow> error + sql_result"
  db_Query :: "string \<Rightarrow> go_value list \<Rightarrow> error + cursor"
  db_Ping :: "error option"
  db_Close :: "error option"

text \<open>
  \<open>strings.TrimSpace\<close> removes the leading and the trailing white space, as
  \<open>unicode.IsSpace\<close> defines it: the six ASCII characters, U+0085, U+00A0, U+1680,
  U+2000 to U+200A, U+2028, U+2029, U+202F, U+205F and U+3000. A string is its UTF-8
  bytes; every rune of the list is written as the bytes that encode it. A byte sequence
  that is not valid UTF-8 decodes to \<open>utf8.RuneError\<close>, which is no white space, so the
  trimming stops there. \<open>utf8.DecodeLastRuneInString\<close> finds a rune at the end of a string
  exactly when the string ends with the bytes of that rune.
\<close>

definition white_space :: "string list" where
  "white_space =
     [[CHR 0x09], [CHR 0x0A], [CHR 0x0B], [CHR 0x0C], [CHR 0x0D], [CHR 0x20],
      [CHR 0xC2, CHR 0x85], [CHR 0xC2, CHR 0xA0], [CHR 0xE1, CHR 0x9A, CHR 0x80],
      [CHR 0xE2, CHR 0x80, CHR 0x80], [CHR 0xE2, CHR 0x80, CHR 0x81], [CHR 0xE2, CHR 0x80, CHR 0x82],
      [CHR 0xE2, CHR 0x80, CHR 0x83], [CHR 0xE2, CHR 0x80, CHR 0x84], [CHR 0xE2, CHR 0x80, CHR 0x85],
      [CHR 0xE2, CHR 0x80, CHR 0x86], [CHR 0xE2, CHR 0x80, CHR 0x87], [CHR 0xE2, CHR 0x80, CHR 0x88],
      [CHR 0xE2, CHR 0x80, CHR 0x89], [CHR 0xE2, CHR 0x80, CHR 0x8A], [CHR 0xE2, CHR 0x80, CHR 0xA8],
      [CHR 0xE2, CHR 0x80, CHR 0xA9], [CHR 0xE2, CHR 0x80, CHR 0xAF], [CHR 0xE2, CHR 0x81, CHR 0x9F],
      [CHR 0xE3, CHR 0x80, CHR 0x80]]"

definition leading_space :: "string \<Rightarrow> string option" where
  "leading_space s = find (HasPrefix s) white_space"

definition trailing_space :: "string \<Rightarrow> string option" where
  "trailing_space s = find (\<lambda>r. HasPrefix (rev s) (rev r)) white_space"

function TrimLeftSpace :: "string \<Rightarrow> string" where
  "TrimLeftSpace s =
     (case leading_space s of
        None \<Rightarrow> s
      | Some r \<Rightarrow> TrimLeftSpace (drop (length r) s))"
  by pat_completeness auto
termination
proof (relation "measure length")
  show "wf (measure length)" by simp
next
  fix s r :: string
  assume "leading_space s = Some r"
  then have "r \<in> set white_space" and p: "HasPrefix s r"
    by (auto simp: leading_space_def dest: find_Some_iff [THEN iffD1])
  then have "r \<noteq> []" by (auto simp: white_space_def)
  with p have "s \<noteq> []" by (auto simp: HasPrefix_def)
  with \<open>r \<noteq> []\<close> show "(drop (length r) s, s) \<in> measure length" by simp
qed

declare TrimLeftSpace.simps [simp del]

function TrimRightSpace :: "string \<Rightarrow> string" where
  "TrimRightSpace s =
     (case trailing_space s of
        None \<Rightarrow> s
      | Some r \<Rightarrow> TrimRightSpace (take (length s - length r) s))"
  by pat_completeness auto
termination
proof (relation "measure length")
  show "wf (measure length)" by simp
next
  fix s r :: string
  assume "trailing_space s = Some r"
  then have "r \<in> set white_space" and p: "HasPrefix (rev s) (rev r)"
    by (auto simp: trailing_space_def dest: find_Some_iff [THEN iffD1])
  then have "r \<noteq> []" by (auto simp: white_space_def)
  with p have "s \<noteq> []" by (auto simp: HasPrefix_def)
  with \<open>r \<noteq> []\<close> show "(take (length s - length r) s, s) \<in> measure length" by simp
qed

declare TrimRightSpace.simps [simp del]

definition TrimSpace :: "string \<Rightarrow> string" where
  "TrimSpace s = TrimRightSpace (TrimLeftSpace s)"

text \<open>The rows of column information: sequence number, name and type.\<close>

type_synonym column_info = "int \<times> string \<times> string"
type_synonym table_info = "column_info list \<times> (string \<rightharpoonup> string) \<times> error option"

definition not_connected :: error where
  "not_connected = ErrorString ''not connected''"

text \<open>
  \<open>GetRowsInfo\<close>, the same in both packages: the columns of the cursor, numbered from 1,
  and the map from name to type, where a later column of the same name wins.
\<close>

fun number_columns :: "int \<Rightarrow> (string \<times> string) list \<Rightarrow> column_info list" where
  "number_columns index [] = []"
| "number_columns index ((Name, Type) # rest) = (index + 1, Name, Type) # number_columns (index + 1) rest"

definition GetRowsInfo :: "cursor \<Rightarrow> table_info" where
  "GetRowsInfo rows =
     (case ColumnTypes rows of
        Inl err \<Rightarrow> ([], Map.empty, Some err)
      | Inr colTypes \<Rightarrow>
          (number_columns 0 colTypes,
           fold (\<lambda>(Name, Type) columnInfoMap. columnInfoMap(Name \<mapsto> Type)) colTypes Map.empty,
           None))"

text \<open>
  The loop of \<open>GetSQLTableInfo\<close>, the same in both packages: every row is scanned into an
  \<open>int\<close> and two strings; a row that fails to scan ends the loop, and the rows read so far
  are returned with the error. How \<open>Scan\<close> converts a driver value into an \<open>int\<close> or a
  string is a parameter.
\<close>

record conversions =
  to_int :: "go_value \<Rightarrow> error + int"
  to_string :: "go_value \<Rightarrow> error + string"

definition Scan_column_info :: "conversions \<Rightarrow> fetch \<Rightarrow> error + column_info" where
  "Scan_column_info cv current =
     (case current of
        RowReady [a, b, c] \<Rightarrow>
          (case to_int cv a of
             Inl e \<Rightarrow> Inl e
           | Inr Sequence \<Rightarrow>
               (case to_string cv b of
                  Inl e \<Rightarrow> Inl e
                | Inr Name \<Rightarrow>
                    (case to_string cv c of
                       Inl e \<Rightarrow> Inl e
                     | Inr Type \<Rightarrow> Inr (Sequence, Name, Type))))
      | RowReady vs \<Rightarrow> Inl expected_destinations
      | ScanFails e \<Rightarrow> Inl e
      | NextFails e \<Rightarrow> Inl e)"

fun column_info_loop ::
  "conversions \<Rightarrow> fetch list \<Rightarrow> column_info list \<Rightarrow> (string \<rightharpoonup> string) \<Rightarrow> table_info" where
  "column_info_loop cv [] columInfoRows columnInfoMap = (columInfoRows, columnInfoMap, None)"
| "column_info_loop cv (NextFails e # rest) columInfoRows columnInfoMap =
     (columInfoRows, columnInfoMap, None)"
| "column_info_loop cv (current # rest) columInfoRows columnInfoMap =
     (case Scan_column_info cv current of
        Inl err \<Rightarrow> (columInfoRows, columnInfoMap, Some err)
      | Inr (Sequence, Name, Type) \<Rightarrow>
          column_info_loop cv rest (columInfoRows @ [(Sequence, Name, Type)])
            (columnInfoMap(Name \<mapsto> Type)))"

definition read_column_info :: "conversions \<Rightarrow> error + cursor \<Rightarrow> table_info" where
  "read_column_info cv queried =
     (case queried of
        Inl err \<Rightarrow> ([], Map.empty, Some err)
      | Inr rows \<Rightarrow>
          if closed rows then ([], Map.empty, None)
          else column_info_loop cv (fetches rows) [] Map.empty)"

section \<open>The file-backed variant (package sqlitedb)\<close>

record SQLiteDBStruct =
  FilePath :: string
  Database :: string
  DatabaseExt :: string
  AutoCreate :: bool
  DB :: "handle option"





text \<open>The passthrough methods. A method called on a nil \<open>*sql.DB\<close> dereferences it and panics.\<close>

definition SQLite_Exec ::
  "SQLiteDBStruct \<Rightarrow> string \<Rightarrow> go_value list \<Rightarrow> (sql_result option \<times> error option) outcome" where
  "SQLite_Exec conn query args =
     (case DB conn of
        None \<Rightarrow> Returned (None, Some not_connected)
      | Some db \<Rightarrow>
          (case db_Exec db (TrimSpace query) args of
             Inl err \<Rightarrow> Returned (None, Some err)
           | Inr res \<Rightarrow> Returned (Some res, None)))"

definition SQLite_Query ::
  "SQLiteDBStruct \<Rightarrow> string \<Rightarrow> go_value list \<Rightarrow> (cursor option \<times> error option) outcome" where
  "SQLite_Query conn query args =
     (case DB conn of
        None \<Rightarrow> Returned (None, Some not_connected)
      | Some db \<Rightarrow>
          (case db_Query db (TrimSpace query) args of
             Inl err \<Rightarrow> Returned (None, Some err)
           | Inr rows \<Rightarrow> Returned (Some rows, None)))"

definition SQLite_QueryRow ::
  "SQLiteDBStruct \<Rightarrow> string \<Rightarrow> go_value list \<Rightarrow> (error + cursor) outcome" where
  "SQLite_QueryRow conn query args =
     (case DB conn of
        None \<Rightarrow> Panic
      | Some db \<Rightarrow> Returned (db_Query db (TrimSpace query) args))"

definition SQLite_Close :: "SQLiteDBStruct \<Rightarrow> SQLiteDBStruct \<times> error option" where
  "SQLite_Close conn =
     (conn\<lparr>DB := None\<rparr>, (case DB conn of None \<Rightarrow> None | Some db \<Rightarrow> db_Close db))"

definition table_cannot_be_blank :: error where
  "table_cannot_be_blank = ErrorString ''table cannot be blank''"

definition SQLite_GetSQLTableInfo ::
  "conversions \<Rightarrow> SQLiteDBStruct \<Rightarrow> string \<Rightarrow> table_info outcome" where
  "SQLite_GetSQLTableInfo cv conn table =
     (case DB conn of
        None \<Rightarrow> Returned ([], Map.empty, Some not_connected)
      | Some db \<Rightarrow>
          if table = [] then Returned ([], Map.empty, Some table_cannot_be_blank)
          else Returned (read_column_info cv
                 (db_Query db
                    (''SELECT IFNULL(cid, 0)+1, IFNULL(name, '' @ [CHR 0x27, CHR 0x27] @
                     ''), IFNULL(type, '' @ [CHR 0x27, CHR 0x27] @ '') FROM PRAGMA_TABLE_INFO(?);'')
                    [VString table])))"

definition SQLite_GetRowsInfo :: "SQLiteDBStruct \<Rightarrow> cursor \<Rightarrow> table_info" where
  "SQLite_GetRowsInfo conn rows = GetRowsInfo rows"

definition SQLite_GetTableInfo :: "SQLiteDBStruct \<Rightarrow> string \<Rightarrow> table_info outcome" where
  "SQLite_GetTableInfo conn table =
     (case DB conn of
        None \<Rightarrow> Returned ([], Map.empty, Some not_connected)
      | Some db \<Rightarrow>
          if table = [] then Returned ([], Map.empty, Some table_cannot_be_blank)
          else (case db_Query db (''SELECT * FROM '' @ table @ '' LIMIT 1;'') [] of
                  Inl err \<Rightarrow> Returned ([], Map.empty, Some err)
                | Inr rows \<Rightarrow> Returned (SQLite_GetRowsInfo conn rows)))"

subsection \<open>\<open>ScanRows\<close>\<close>

text \<open>
  The type switch: the fixed-width integers become \<open>int\<close>, \<open>float32\<close> becomes \<open>float64\<close>
  (the conversion of the bit pattern is a parameter), every other value stays.
\<close>

definition narrow :: "(32 word \<Rightarrow> 64 word) \<Rightarrow> go_value \<Rightarrow> go_value" where
  "narrow widen v =
     (case v of
        VInt8 x \<Rightarrow> VInt (scast x)
      | VInt16 x \<Rightarrow> VInt (scast x)
      | VInt32 x \<Rightarrow> VInt (scast x)
      | VInt64 x \<Rightarrow> VInt x
      | VUint x \<Rightarrow> VInt x
      | VUint8 x \<Rightarrow> VInt (ucast x)
      | VUint16 x \<Rightarrow> VInt (ucast x)
      | VUint32 x \<Rightarrow> VInt (ucast x)
      | VUint64 x \<Rightarrow> VInt x
      | VFloat32 x \<Rightarrow> VFloat64 (widen x)
      | other \<Rightarrow> other)"

type_synonym record_map = "string \<rightharpoonup> go_value"

text \<open>\<open>scans[i] = &scans[i]\<close> for every column, then \<open>sqlRows.Scan(scans...)\<close>, its error dropped.\<close>

definition scan_row :: "string list \<Rightarrow> fetch \<Rightarrow> go_value list" where
  "scan_row columns current = fst (Scan_any current (map VPtr [0 ..< length columns]))"

definition SQLite_record :: "(32 word \<Rightarrow> 64 word) \<Rightarrow> string list \<Rightarrow> go_value list \<Rightarrow> record_map" where
  "SQLite_record widen columns scans =
     fold (\<lambda>(Name, v) r. r(Name \<mapsto> narrow widen v)) (zip columns scans) Map.empty"

fun SQLite_scan_loop :: "(32 word \<Rightarrow> 64 word) \<Rightarrow> string list \<Rightarrow> fetch list \<Rightarrow> record_map list" where
  "SQLite_scan_loop widen columns [] = []"
| "SQLite_scan_loop widen columns (NextFails e # rest) = []"
| "SQLite_scan_loop widen columns (current # rest) =
     SQLite_record widen columns (scan_row columns current) # SQLite_scan_loop widen columns rest"

definition SQLite_ScanRows ::
  "(32 word \<Rightarrow> 64 word) \<Rightarrow> SQLiteDBStruct \<Rightarrow> cursor \<Rightarrow> record_map list \<times> error option" where
  "SQLite_ScanRows widen conn sqlRows =
     (case Columns sqlRows of
        Inl err \<Rightarrow> ([], Some err)
      | Inr columns \<Rightarrow> (SQLite_scan_loop widen columns (fetches sqlRows), None))"

definition SQLite_QueryRecords ::
  "(32 word \<Rightarrow> 64 word) \<Rightarrow> SQLiteDBStruct \<Rightarrow> string \<Rightarrow> go_value list
     \<Rightarrow> (record_map list \<times> error option) outcome" where
  "SQLite_QueryRecords widen conn query args =
     (case DB conn of
        None \<Rightarrow> Panic
      | Some db \<Rightarrow>
          (case db_Query db (TrimSpace query) args of
             Inl err \<Rightarrow> Returned ([], Some err)
           | Inr rows \<Rightarrow> Returned (SQLite_ScanRows widen conn rows)))"

section \<open>The client-server variant (package mysqldb)\<close>

record MySQLdbStruct =
  Host :: string
  User :: string
  Password :: string
  AllowNativePasswords :: bool
  Database :: string
  AutoCreate :: bool
  DB :: "handle option"

text \<open>The fields of \<open>mysql.Config\<close> that \<open>Connect\<close> sets; the others keep their zero values.\<close>

record Config =
  User :: string
  Passwd :: string
  AllowNativePasswords :: bool
  Addr :: string
  Net :: string

text \<open>
  What \<open>Connect\<close> asks of its surroundings: \<open>os.Getenv\<close> (the empty string for a variable
  that is not set) and \<open>sql.Open("mysql", mysqlConfig.FormatDSN())\<close>.
\<close>

record mysql_world =
  Getenv :: "string \<Rightarrow> string"
  Open_mysql :: "Config \<Rightarrow> error + handle"

definition invalid_database_name :: error where
  "invalid_database_name = ErrorString ''invalid database name''"

text \<open>
  The overlay from the environment. \<open>checkENV\<close> is variadic: a call without the flag
  passes the nil slice, the empty list here, and a call with flags passes them as a list
  that is not empty. (Only a call that spreads an empty slice that is not nil would index
  it out of range; the list does not tell that slice from nil.)
\<close>

definition overlay_environment :: "mysql_world \<Rightarrow> MySQLdbStruct \<Rightarrow> bool list \<Rightarrow> MySQLdbStruct" where
  "overlay_environment w conn checkENV =
     (if checkENV \<noteq> [] \<and> hd checkENV then
        (let conn = (if MySQLdbStruct.Database conn = []
                     then conn\<lparr>MySQLdbStruct.Database := Getenv w ''MYSQL_DATABASE''\<rparr> else conn);
             conn = conn\<lparr>Host := Getenv w ''MYSQL_HOST''\<rparr>;
             conn = conn\<lparr>MySQLdbStruct.User := Getenv w ''MYSQL_USER''\<rparr>;
             conn = conn\<lparr>Password := Getenv w ''MYSQL_PWD''\<rparr>;
             conn = conn\<lparr>MySQLdbStruct.AllowNativePasswords :=
                      (Getenv w ''MYSQL_ALLOW_NATIVE_PASSWORDS'' = ''true'')\<rparr>
         in conn)
      else conn)"

definition error_of :: "error + 'a \<Rightarrow> error option" where
  "error_of r = (case r of Inl err \<Rightarrow> Some err | Inr x \<Rightarrow> None)"

definition MySQL_Connect ::
  "mysql_world \<Rightarrow> MySQLdbStruct \<Rightarrow> bool list \<Rightarrow> MySQLdbStruct \<times> error option" where
  "MySQL_Connect w conn0 checkENV =
     (let conn = overlay_environment w conn0 checkENV;
          mysqlConfig = \<lparr>Config.User = MySQLdbStruct.User conn, Passwd = Password conn,
                         Config.AllowNativePasswords = MySQLdbStruct.AllowNativePasswords conn,
                         Addr = [], Net = []\<rparr>;
          mysqlConfig = (if Host conn \<noteq> [] then mysqlConfig\<lparr>Addr := Host conn, Net := ''tcp''\<rparr>
                         else mysqlConfig)
      in
      if MySQLdbStruct.Database conn \<noteq> [] \<and> \<not> CheckDatabaseName (MySQLdbStruct.Database conn)
      then (conn, Some invalid_database_name)
      else
        (case Open_mysql w mysqlConfig of
           Inl err \<Rightarrow> (conn\<lparr>MySQLdbStruct.DB := None\<rparr>, Some err)
         | Inr db \<Rightarrow>
             (let conn = conn\<lparr>MySQLdbStruct.DB := Some db\<rparr>;
                  err = db_Ping db
              in
              if err = None \<and> MySQLdbStruct.Database conn \<noteq> [] then
                (let err = (if MySQLdbStruct.AutoCreate conn
                            then error_of (db_Exec db
                                   (''CREATE DATABASE IF NOT EXISTS '' @ MySQLdbStruct.Database conn @ '';'') [])
                            else err);
                     err = (if err = None
                            then error_of (db_Exec db (''USE '' @ MySQLdbStruct.Database conn @ '';'') [])
                            else err)
                 in (conn, err))
              else (conn, err))))"

definition MySQL_Exec ::
  "MySQLdbStruct \<Rightarrow> string \<Rightarrow> go_value list \<Rightarrow> (sql_result option \<times> error option) outcome" where
  "MySQL_Exec conn query args =
     (case MySQLdbStruct.DB conn of
        None \<Rightarrow> Returned (None, Some not_connected)
      | Some db \<Rightarrow>
          (case db_Exec db (TrimSpace query) args of
             Inl err \<Rightarrow> Returned (None, Some err)
           | Inr res \<Rightarrow> Returned (Some res, None)))"

definition MySQL_Query ::
  "MySQLdbStruct \<Rightarrow> string \<Rightarrow> go_value list \<Rightarrow> (cursor option \<times> error option) outcome" where
  "MySQL_Query conn query args =
     (case MySQLdbStruct.DB conn of
        None \<Rightarrow> Returned (None, Some not_connected)
      | Some db \<Rightarrow>
          (case db_Query db (TrimSpace query) args of
             Inl err \<Rightarrow> Returned (None, Some err)
           | Inr rows \<Rightarrow> Returned (Some rows, None)))"

definition MySQL_QueryRow ::
  "MySQLdbStruct \<Rightarrow> string \<Rightarrow> go_value list \<Rightarrow> (error + cursor) outcome" where
  "MySQL_QueryRow conn query args =
     (case MySQLdbStruct.DB conn of
        None \<Rightarrow> Panic
      | Some db \<Rightarrow> Returned (db_Query db (TrimSpace query) args))"

definition MySQL_Close :: "MySQLdbStruct \<Rightarrow> MySQLdbStruct \<times> error option" where
  "MySQL_Close conn =
     (conn\<lparr>MySQLdbStruct.DB := None\<rparr>,
      (case MySQLdbStruct.DB conn of None \<Rightarrow> None | Some db \<Rightarrow> db_Close db))"

text \<open>
  The checks that \<open>TableExists\<close>, \<open>GetSQLTableInfo\<close> and \<open>GetTableInfo\<close> start with, in
  the order of the source; the result is the handle, or the error of the first check that
  fails.
\<close>

definition check_connection :: "MySQLdbStruct \<Rightarrow> string \<Rightarrow> error + handle" where
  "check_connection conn tableName =
     (case MySQLdbStruct.DB conn of
        None \<Rightarrow> Inl not_connected
      | Some db \<Rightarrow>
          if MySQLdbStruct.Database conn = [] then Inl (ErrorString ''database name cannot be blank'')
          else if \<not> CheckDatabaseName (MySQLdbStruct.Database conn) then Inl invalid_database_name
          else if tableName = [] then Inl (ErrorString ''table name cannot be blank'')
          else if \<not> CheckTableName tableName then Inl (ErrorString ''invalid table name'')
          else Inr db)"

text \<open>\<open>for rows.Next() { err = rows.Scan(&count) }\<close>: the last scan decides.\<close>

fun count_loop :: "conversions \<Rightarrow> fetch list \<Rightarrow> int \<Rightarrow> error option \<Rightarrow> int \<times> error option" where
  "count_loop cv [] count err = (count, err)"
| "count_loop cv (NextFails e # rest) count err = (count, err)"
| "count_loop cv (RowReady [a] # rest) count err =
     (case to_int cv a of
        Inl e \<Rightarrow> count_loop cv rest count (Some e)
      | Inr n \<Rightarrow> count_loop cv rest n None)"
| "count_loop cv (RowReady vs # rest) count err = count_loop cv rest count (Some expected_destinations)"
| "count_loop cv (ScanFails e # rest) count err = count_loop cv rest count (Some e)"

definition TableExists :: "conversions \<Rightarrow> MySQLdbStruct \<Rightarrow> string \<Rightarrow> (bool \<times> error option) outcome" where
  "TableExists cv conn tableName =
     (case check_connection conn tableName of
        Inl err \<Rightarrow> Returned (False, Some err)
      | Inr db \<Rightarrow>
          (case db_Query db
                  (''SELECT COUNT(*) AS count FROM INFORMATION_SCHEMA.TABLES WHERE TABLE_SCHEMA='' @
                   [CHR 0x27] @ MySQLdbStruct.Database conn @ [CHR 0x27] @ '' AND TABLE_NAME='' @
                   [CHR 0x27] @ tableName @ [CHR 0x27] @ '' LIMIT 1;'') [] of
             Inl err \<Rightarrow> Returned (False, Some err)
           | Inr rows \<Rightarrow>
               (case count_loop cv (if closed rows then [] else fetches rows) 0 None of
                  (count, Some err) \<Rightarrow> Returned (False, Some err)
                | (count, None) \<Rightarrow> Returned (count = 1, None))))"

definition MySQL_GetSQLTableInfo ::
  "conversions \<Rightarrow> MySQLdbStruct \<Rightarrow> string \<Rightarrow> table_info outcome" where
  "MySQL_GetSQLTableInfo cv conn tableName =
     (case check_connection conn tableName of
        Inl err \<Rightarrow> Returned ([], Map.empty, Some err)
      | Inr db \<Rightarrow>
          Returned (read_column_info cv
            (db_Query db
               (''SELECT IFNULL(ORDINAL_POSITION, 0), IFNULL(COLUMN_NAME, '' @ [CHR 0x27, CHR 0x27] @
                ''), IFNULL(DATA_TYPE, '' @ [CHR 0x27, CHR 0x27] @
                '') FROM INFORMATION_SCHEMA.COLUMNS WHERE TABLE_SCHEMA=? AND TABLE_NAME=?;'')
               [VString (MySQLdbStruct.Database conn), VString tableName])))"

definition MySQL_GetRowsInfo :: "MySQLdbStruct \<Rightarrow> cursor \<Rightarrow> table_info" where
  "MySQL_GetRowsInfo conn rows = GetRowsInfo rows"

definition MySQL_GetTableInfo :: "MySQLdbStruct \<Rightarrow> string \<Rightarrow> table_info outcome" where
  "MySQL_GetTableInfo conn tableName =
     (case check_connection conn tableName of
        Inl err \<Rightarrow> Returned ([], Map.empty, Some err)
      | Inr db \<Rightarrow>
          (case db_Query db
                  (''SELECT * FROM '' @ MySQLdbStruct.Database conn @ ''.'' @ tableName @ '' LIMIT 1;'') [] of
             Inl err \<Rightarrow> Returned ([], Map.empty, Some err)
           | Inr rows \<Rightarrow> Returned (MySQL_GetRowsInfo conn rows)))"

subsection \<open>\<open>ScanRows\<close>\<close>

text \<open>
  What \<open>ScanRows\<close> takes from other packages. The converters of package system are not
  among the sources: what each computes from its argument is a parameter, and the kind of
  value it returns is taken from the specification. \<open>upper_runes\<close> is
  \<open>strings.Map(unicode.ToUpper, _)\<close> of the library, which \<open>strings.ToUpper\<close> applies to a
  string that has a byte outside ASCII.
\<close>

record converters =
  as_int :: "go_value \<Rightarrow> 64 word"
  as_float :: "go_value \<Rightarrow> 64 word"
  as_bytes :: "go_value \<Rightarrow> string"
  as_bool :: "go_value \<Rightarrow> bool"
  upper_runes :: "string \<Rightarrow> string"

text \<open>
  Modelled from the spec: \<open>system.ConvertToInt\<close> is missing from the sources. The
  specification: "integer-family types \<open>\<rightarrow>\<close> integer".
\<close>

definition ConvertToInt :: "converters \<Rightarrow> go_value \<Rightarrow> go_value" where
  "ConvertToInt k v = VInt (as_int k v)"

text \<open>
  Modelled from the spec: \<open>system.ConvertToFloat\<close> is missing from the sources. The
  specification: "decimal/float-family types \<open>\<rightarrow>\<close> floating point".
\<close>

definition ConvertToFloat :: "converters \<Rightarrow> go_value \<Rightarrow> go_value" where
  "ConvertToFloat k v = VFloat64 (as_float k v)"

text \<open>
  Modelled from the spec: \<open>system.ConvertToBytes\<close> is missing from the sources. The
  specification: "binary/blob-family types \<open>\<rightarrow>\<close> raw bytes".
\<close>

definition ConvertToBytes :: "converters \<Rightarrow> go_value \<Rightarrow> go_value" where
  "ConvertToBytes k v = VBytes (as_bytes k v)"

text \<open>
  Modelled from the spec: \<open>system.ConvertToBool\<close> is missing from the sources. The
  specification: "boolean-family types \<open>\<rightarrow>\<close> boolean".
\<close>

definition ConvertToBool :: "converters \<Rightarrow> go_value \<Rightarrow> go_value" where
  "ConvertToBool k v = VBool (as_bool k v)"

text \<open>
  \<open>strings.ToUpper\<close>: a string of ASCII bytes only has its letters \<open>a\<close> to \<open>z\<close> replaced
  byte by byte; any other string is mapped rune by rune with \<open>unicode.ToUpper\<close>.
\<close>

definition upper_char :: "char \<Rightarrow> char" where
  "upper_char c =
     (if 97 \<le> (of_char c :: nat) \<and> (of_char c :: nat) \<le> 122 then char_of ((of_char c :: nat) - 32) else c)"

definition ToUpper :: "converters \<Rightarrow> string \<Rightarrow> string" where
  "ToUpper k s =
     (if list_all (\<lambda>c. (of_char c :: nat) < 0x80) s then map upper_char s else upper_runes k s)"

text \<open>The four cases of the \<open>switch Type\<close>, in the order of the source.\<close>

definition integer_types :: "string list" where
  "integer_types =
     [''BIGINT'', ''BIT'', ''BIT VARYING'', ''INT'', ''INTEGER'', ''MEDIUMINT'', ''SERIAL'',
      ''SMALLINT'', ''SMALLSERIAL'', ''TINYINT'']"

definition float_types :: "string list" where
  "float_types =
     [''DEC'', ''DECIMAL'', ''DOUBLE'', ''DOUBLE PRECISION'', ''FIXED'', ''FLOAT'', ''NUMERIC'', ''REAL'']"

definition bytes_types :: "string list" where
  "bytes_types =
     [''BIGSERIAL'', ''BINARY'', ''BLOB'', ''BYTE'', ''BYTEA'', ''LONGBLOB'', ''TINYBLOB'', ''VARBINARY'']"

definition bool_types :: "string list" where
  "bool_types = [''BOOL'', ''BOOLEAN'']"

definition coerce :: "converters \<Rightarrow> string \<Rightarrow> go_value \<Rightarrow> go_value" where
  "coerce k Type v =
     (if Type \<in> set integer_types then ConvertToInt k v
      else if Type \<in> set float_types then ConvertToFloat k v
      else if Type \<in> set bytes_types then ConvertToBytes k v
      else if Type \<in> set bool_types then ConvertToBool k v
      else v)"

text \<open>
  One cell: \<open>value = string(value.([]byte))\<close> panics unless the value is a byte sequence;
  \<open>columnTypes[Name]\<close> is the empty string for a name that is not in the map.
\<close>

definition MySQL_cell :: "converters \<Rightarrow> (string \<rightharpoonup> string) \<Rightarrow> string \<Rightarrow> go_value \<Rightarrow> go_value outcome" where
  "MySQL_cell k columnTypes Name v =
     (case v of
        VBytes b \<Rightarrow>
          (let Type = ToUpper k (case columnTypes Name of None \<Rightarrow> [] | Some t \<Rightarrow> t) in
           Returned (coerce k Type (VString b)))
      | other \<Rightarrow> Panic)"

fun MySQL_record ::
  "converters \<Rightarrow> (string \<rightharpoonup> string) \<Rightarrow> (string \<times> go_value) list \<Rightarrow> record_map \<Rightarrow> record_map outcome" where
  "MySQL_record k columnTypes [] r = Returned r"
| "MySQL_record k columnTypes ((Name, v) # rest) r =
     (case MySQL_cell k columnTypes Name v of
        Panic \<Rightarrow> Panic
      | Returned v' \<Rightarrow> MySQL_record k columnTypes rest (r(Name \<mapsto> v')))"

fun MySQL_scan_loop ::
  "converters \<Rightarrow> (string \<rightharpoonup> string) \<Rightarrow> string list \<Rightarrow> fetch list \<Rightarrow> record_map list outcome" where
  "MySQL_scan_loop k columnTypes columns [] = Returned []"
| "MySQL_scan_loop k columnTypes columns (NextFails e # rest) = Returned []"
| "MySQL_scan_loop k columnTypes columns (current # rest) =
     (case MySQL_record k columnTypes (zip columns (scan_row columns current)) Map.empty of
        Panic \<Rightarrow> Panic
      | Returned r \<Rightarrow>
          (case MySQL_scan_loop k columnTypes columns rest of
             Panic \<Rightarrow> Panic
           | Returned records \<Rightarrow> Returned (r # records)))"

definition MySQL_ScanRows ::
  "converters \<Rightarrow> MySQLdbStruct \<Rightarrow> cursor \<Rightarrow> (record_map list \<times> error option) outcome" where
  "MySQL_ScanRows k conn sqlRows =
     (case MySQL_GetRowsInfo conn sqlRows of (info, columnTypes, ignored) \<Rightarrow>
        (case Columns sqlRows of
           Inl err \<Rightarrow> Returned ([], Some err)
         | Inr columns \<Rightarrow>
             (case MySQL_scan_loop k columnTypes columns (fetches sqlRows) of
                Panic \<Rightarrow> Panic
              | Returned records \<Rightarrow> Returned (records, None))))"

definition MySQL_QueryRecords ::
  "converters \<Rightarrow> MySQLdbStruct \<Rightarrow> string \<Rightarrow> go_value list
     \<Rightarrow> (record_map list \<times> error option) outcome" where
  "MySQL_QueryRecords k conn query args =
     (case MySQLdbStruct.DB conn of
        None \<Rightarrow> Panic
      | Some db \<Rightarrow>
          (case db_Query db (TrimSpace query) args of
             Inl err \<Rightarrow> Returned ([], Some err)
           | Inr rows \<Rightarrow> MySQL_ScanRows k conn rows))"

section \<open>The encodings, step by step\<close>

text \<open>The replacers of \<open>Base64url_encode\<close> and \<open>Base64url_decode\<close>.\<close>

definition to_url :: "string \<Rightarrow> string" where
  "to_url t = Replace [(''+'', ''-''), (''/'', ''_''), (''='', [])] t"

definition to_std :: "string \<Rightarrow> string" where
  "to_std t = Replace [(''-'', ''+''), (''_'', ''/'')] t"

text \<open>The replacers of \<open>Base91_encode\<close> and \<open>Base91_decode\<close>.\<close>

definition escape91 :: "string \<Rightarrow> string" where
  "escape91 t = Replace [([CHR 0x22], ''-q''), ([CHR 0x24], ''-d''), ([CHR 0x60], ''-g'')] t"

definition unescape91 :: "string \<Rightarrow> string" where
  "unescape91 t = Replace [(''-g'', [CHR 0x60]), (''-d'', [CHR 0x24]), (''-q'', [CHR 0x22])] t"

text \<open>
  The bits that the base91 encoder has read, and the bits that the decoder has still to
  write, are numbers: a byte string read low byte first, and the \<open>k\<close> low bytes of a
  number.
\<close>

fun nat_of_bytes :: "string \<Rightarrow> nat" where
  "nat_of_bytes [] = 0"
| "nat_of_bytes (b # bs) = of_char b + 256 * nat_of_bytes bs"

fun bytes_of :: "nat \<Rightarrow> nat \<Rightarrow> string" where
  "bytes_of 0 N = []"
| "bytes_of (Suc k) N = char_of N # bytes_of k (N div 256)"

section \<open>The log line, field by field\<close>

text \<open>
  A line splits at its tabs into fields. The seven fields of an entry are written out
  one by one, the message escaped byte by byte: backslash, tab, line feed and carriage
  return as two characters, any other byte outside the printable ASCII range as
  \<open>\xNN\<close>.
\<close>

fun split_on :: "char \<Rightarrow> string \<Rightarrow> string list" where
  "split_on sep [] = [[]]"
| "split_on sep (c # cs) =
     (if c = sep then [] # split_on sep cs
      else (case split_on sep cs of first # others \<Rightarrow> (c # first) # others | [] \<Rightarrow> [[c]]))"

fun join_tabs :: "string list \<Rightarrow> string" where
  "join_tabs [] = []"
| "join_tabs [field] = field"
| "join_tabs (field # others) = field @ [CHR 0x09] @ join_tabs others"

definition printable :: "char \<Rightarrow> bool" where
  "printable c = (0x20 \<le> (of_char c :: nat) \<and> (of_char c :: nat) < 0x7F)"

definition escape_char :: "char \<Rightarrow> string" where
  "escape_char c =
     (if c = CHR 0x5C then [CHR 0x5C, CHR 0x5C]
      else if c = CHR 0x09 then [CHR 0x5C, CHR ''t'']
      else if c = CHR 0x0A then [CHR 0x5C, CHR ''n'']
      else if c = CHR 0x0D then [CHR 0x5C, CHR ''r'']
      else if printable c then [c]
      else [CHR 0x5C, CHR ''x''] @ format_02X c)"

definition log_fields :: "clock \<Rightarrow> caller \<Rightarrow> string \<Rightarrow> string list" where
  "log_fields t c messageString =
     [format_d (utm t),
      format_d (Year t) @ format_02d (Month t) @ format_02d (Day t),
      format_02d (Hour t) @ format_02d (Minute t) @ format_02d (Second t),
      (if callerOk c \<and> callerResolved c then TrimRight (fst (Split (callerFile c))) ''/'' else []),
      (if callerOk c \<and> callerResolved c then snd (Split (callerFile c)) else []),
      format_d (callerLine c),
      concat (map escape_char messageString)]"

section \<open>The value kinds of a scanned record\<close>

definition is_integer :: "go_value \<Rightarrow> bool" where
  "is_integer v = (case v of VInt n \<Rightarrow> True | other \<Rightarrow> False)"

definition is_float :: "go_value \<Rightarrow> bool" where
  "is_float v = (case v of VFloat64 x \<Rightarrow> True | other \<Rightarrow> False)"

definition is_bytes :: "go_value \<Rightarrow> bool" where
  "is_bytes v = (case v of VBytes b \<Rightarrow> True | other \<Rightarrow> False)"

definition is_boolean :: "go_value \<Rightarrow> bool" where
  "is_boolean v = (case v of VBool b \<Rightarrow> True | other \<Rightarrow> False)"

text \<open>
  What the value \<open>v\<close> of a cell is, given the byte sequence \<open>b\<close> of the driver and the
  uppercased declared type of the column: the converter of the family of the type, applied
  to the string of \<open>b\<close>, and so a value of the kind of that family; the string itself for
  a type of no family.
\<close>

definition coerced_as :: "converters \<Rightarrow> string \<Rightarrow> string \<Rightarrow> go_value \<Rightarrow> bool" where
  "coerced_as k Type b v =
     ((Type \<in> set integer_types \<longrightarrow> v = ConvertToInt k (VString b) \<and> is_integer v)
      \<and> (Type \<in> set float_types \<longrightarrow> v = ConvertToFloat k (VString b) \<and> is_float v)
      \<and> (Type \<in> set bytes_types \<longrightarrow> v = ConvertToBytes k (VString b) \<and> is_bytes v)
      \<and> (Type \<in> set bool_types \<longrightarrow> v = ConvertToBool k (VString b) \<and> is_boolean v)
      \<and> (Type \<notin> set (integer_types @ float_types @ bytes_types @ bool_types) \<longrightarrow> v = VString b)
      \<and> (Type = ''INT'' \<longrightarrow> is_integer v)
      \<and> (Type = ''DECIMAL'' \<longrightarrow> is_float v)
      \<and> (Type = ''BLOB'' \<longrightarrow> is_bytes v))"

text \<open>
  The rows that the loop of \<open>ScanRows\<close> reaches: those before the first one that the
  driver fails to fetch.
\<close>

definition is_fetched :: "fetch \<Rightarrow> bool" where
  "is_fetched current = (case current of NextFails e \<Rightarrow> False | other \<Rightarrow> True)"

definition scanned_rows :: "cursor \<Rightarrow> fetch list" where
  "scanned_rows rows = takeWhile is_fetched (fetches rows)"

text \<open>
  A record is a map, so of several columns of one name the last one gives the value
  (and, in \<open>GetRowsInfo\<close>, the type).
\<close>

definition last_of_its_name :: "(string \<times> string) list \<Rightarrow> nat \<Rightarrow> bool" where
  "last_of_its_name columns j = (fst (columns ! j) \<notin> set (map fst (drop (Suc j) columns)))"

text \<open>
  The records of a cursor, cell by cell: there is one record for every row reached, in
  the order of the rows; its names are the column names; the row delivered a byte
  sequence for every column, and the value under the name of a column is that byte
  sequence, coerced by the uppercased type of the column.
\<close>

definition cells_coerced :: "converters \<Rightarrow> cursor \<Rightarrow> record_map list \<Rightarrow> bool" where
  "cells_coerced k rows records =
     (length records = length (scanned_rows rows)
      \<and> (\<forall>i < length records.
            dom (records ! i) = set (map fst (cols rows))
            \<and> (\<forall>j < length (cols rows).
                  \<exists>vs b. scanned_rows rows ! i = RowReady vs \<and> length vs = length (cols rows)
                    \<and> vs ! j = VBytes b
                    \<and> (last_of_its_name (cols rows) j \<longrightarrow>
                          (\<exists>v. (records ! i) (fst (cols rows ! j)) = Some v
                             \<and> coerced_as k (ToUpper k (snd (cols rows ! j))) b v)))))"

text \<open>A row of byte sequences, one for each of \<open>n\<close> columns.\<close>

definition byte_row :: "nat \<Rightarrow> fetch \<Rightarrow> bool" where
  "byte_row n current =
     (case current of RowReady vs \<Rightarrow> length vs = n \<and> list_all is_bytes vs | other \<Rightarrow> False)"

section \<open>Concrete inputs\<close>


definition example_world :: mysql_world where
  "example_world = \<lparr>Getenv = (\<lambda>name. ''true''), Open_mysql = (\<lambda>cfg. Inl (LibError ''connection refused''))\<rparr>"

definition example_conn :: MySQLdbStruct where
  "example_conn = \<lparr>Host = ''localhost'', MySQLdbStruct.User = ''root'', Password = ''secret'',
     MySQLdbStruct.AllowNativePasswords = False, MySQLdbStruct.Database = ''shop'',
     MySQLdbStruct.AutoCreate = False, MySQLdbStruct.DB = None\<rparr>"

definition never_opened :: SQLiteDBStruct where
  "never_opened = \<lparr>FilePath = [], SQLiteDBStruct.Database = [], DatabaseExt = [],
     SQLiteDBStruct.AutoCreate = False, SQLiteDBStruct.DB = None\<rparr>"




definition empty_filesystem :: filesystem where
  "empty_filesystem = \<lparr>files = Map.empty, open_error = (\<lambda>path. None), write_error = (\<lambda>path. None),
     LockValue = 0\<rparr>"

definition example_conversions :: conversions where
  "example_conversions =
     \<lparr>to_int = (\<lambda>v. case v of VInt64 n \<Rightarrow> Inr (sint n) | other \<Rightarrow> Inl (LibError ''converting to int'')),
      to_string = (\<lambda>v. case v of VString s \<Rightarrow> Inr s | VBytes s \<Rightarrow> Inr s
                         | other \<Rightarrow> Inl (LibError ''converting to string''))\<rparr>"

definition example_converters :: converters where
  "example_converters =
     \<lparr>as_int = (\<lambda>v. 42), as_float = (\<lambda>v. 0x4045000000000000),
      as_bytes = (\<lambda>v. case v of VString s \<Rightarrow> s | other \<Rightarrow> []),
      as_bool = (\<lambda>v. v = VString ''1''),
      upper_runes = (\<lambda>s. s)\<rparr>"

text \<open>
  Converters that read their argument: decimal digits as an integer, the bit pattern of
  the two prices of the example, the bytes of a string, and \<open>1\<close> as true. The two runes
  that the upper-casing of the example meets are U+0131, whose capital is \<open>I\<close>, and the
  ASCII letters.
\<close>

definition decimal :: "string \<Rightarrow> nat" where
  "decimal s = fold (\<lambda>c n. 10 * n + ((of_char c :: nat) - 48)) s 0"

fun upper_ascii_and_dotless_i :: "string \<Rightarrow> string" where
  "upper_ascii_and_dotless_i [] = []"
| "upper_ascii_and_dotless_i [c] = [upper_char c]"
| "upper_ascii_and_dotless_i (c # d # s) =
     (if c = CHR 0xC4 \<and> d = CHR 0xB1 then CHR ''I'' # upper_ascii_and_dotless_i s
      else upper_char c # upper_ascii_and_dotless_i (d # s))"

definition reading_converters :: converters where
  "reading_converters =
     \<lparr>as_int = (\<lambda>v. case v of VString s \<Rightarrow> of_nat (decimal s) | other \<Rightarrow> 0),
      as_float = (\<lambda>v. if v = VString ''42.0'' then 0x4045000000000000
                        else if v = VString ''1.5'' then 0x3FF8000000000000 else 0),
      as_bytes = (\<lambda>v. case v of VString s \<Rightarrow> s | other \<Rightarrow> []),
      as_bool = (\<lambda>v. v = VString ''1''),
      upper_runes = upper_ascii_and_dotless_i\<rparr>"

text \<open>
  A cursor of two rows. The type of the last column is \<open>int\<close> written with the dotless
  \<open>i\<close> (U+0131, the bytes C4 B1).
\<close>

definition example_rows :: cursor where
  "example_rows = \<lparr>closed = False,
     cols = [(''id'', ''int''), (''price'', ''DECIMAL''), (''img'', ''BLOB''), (''name'', ''VARCHAR''),
             (''ok'', ''bool''), (''n'', [CHR 0xC4, CHR 0xB1, CHR ''n'', CHR ''t''])],
     fetches = [RowReady [VBytes ''42'', VBytes ''42.0'', VBytes ''png'', VBytes ''pen'', VBytes ''1'',
                          VBytes ''3''],
                RowReady [VBytes ''7'', VBytes ''1.5'', VBytes ''gif'', VBytes ''ink'', VBytes ''0'',
                          VBytes ''4'']]\<rparr>"

definition example_records :: "record_map list" where
  "example_records =
     [[''id'' \<mapsto> VInt 42, ''price'' \<mapsto> VFloat64 0x4045000000000000,
       ''img'' \<mapsto> VBytes ''png'', ''name'' \<mapsto> VString ''pen'', ''ok'' \<mapsto> VBool True,
       ''n'' \<mapsto> VInt 3],
      [''id'' \<mapsto> VInt 7, ''price'' \<mapsto> VFloat64 0x3FF8000000000000,
       ''img'' \<mapsto> VBytes ''gif'', ''name'' \<mapsto> VString ''ink'', ''ok'' \<mapsto> VBool False,
       ''n'' \<mapsto> VInt 4]]"

text \<open>
  A handle that answers one query with the cursor of the example, a connection that holds
  it, a query with white space around it (a no-break space before, a line feed and an em
  space after), and the cursor of the example once it is closed.
\<close>

definition item_handle :: handle where
  "item_handle = \<lparr>db_Exec = (\<lambda>query args. Inr (0, 0)),
     db_Query = (\<lambda>query args. if query = ''SELECT * FROM item;'' then Inr example_rows
                                else Inl (LibError ''no such table'')),
     db_Ping = None, db_Close = None\<rparr>"

definition item_conn :: MySQLdbStruct where
  "item_conn = \<lparr>Host = ''localhost'', MySQLdbStruct.User = ''root'', Password = ''secret'',
     MySQLdbStruct.AllowNativePasswords = False, MySQLdbStruct.Database = ''shop'',
     MySQLdbStruct.AutoCreate = False, MySQLdbStruct.DB = Some item_handle\<rparr>"

definition item_query :: string where
  "item_query = [CHR 0xC2, CHR 0xA0, CHR 0x20] @ ''SELECT * FROM item;'' @ [CHR 0x0A, CHR 0xE2, CHR 0x80, CHR 0x83]"

definition closed_rows :: cursor where
  "closed_rows = example_rows\<lparr>closed := True\<rparr>"

text \<open>
  Cursors whose second row fails: \<open>Scan\<close> fails after the context of the query was
  cancelled, or the driver loses the connection while it fetches the row.
\<close>

definition canceled_rows :: cursor where
  "canceled_rows = \<lparr>closed = False, cols = [(''id'', ''INTEGER'')],
     fetches = [RowReady [VInt64 1], ScanFails (LibError ''context canceled'')]\<rparr>"

definition broken_rows :: cursor where
  "broken_rows = \<lparr>closed = False, cols = [(''id'', ''INTEGER'')],
     fetches = [RowReady [VInt64 1], NextFails (LibError ''driver: bad connection'')]\<rparr>"

definition canceled_text_rows :: cursor where
  "canceled_text_rows = \<lparr>closed = False, cols = [(''id'', ''INT'')],
     fetches = [RowReady [VBytes ''1''], ScanFails (LibError ''context canceled'')]\<rparr>"

definition broken_text_rows :: cursor where
  "broken_text_rows = \<lparr>closed = False, cols = [(''id'', ''INT'')],
     fetches = [RowReady [VBytes ''1''], NextFails (LibError ''driver: bad connection'')]\<rparr>"

definition canceled_info_rows :: cursor where
  "canceled_info_rows = \<lparr>closed = False, cols = [(''cid'', []), (''name'', []), (''type'', [])],
     fetches = [RowReady [VInt64 1, VString ''id'', VString ''INTEGER''],
                ScanFails (LibError ''context canceled'')]\<rparr>"

definition example_clock :: clock where
  "example_clock = \<lparr>utm = 1700000000000000, Year = 2023, Month = 11, Day = 4, Hour = 22, Minute = 13,
     Second = 5\<rparr>"

definition app_caller :: caller where
  "app_caller = \<lparr>callerFile = ''/src/app/main.go'', callerLine = 12, callerOk = True, callerResolved = True\<rparr>"

definition tab_caller :: caller where
  "tab_caller = \<lparr>callerFile = ''/src/my'' @ [CHR 0x09] @ ''app/main.go'', callerLine = 12, callerOk = True,
     callerResolved = True\<rparr>"

definition example_message :: string where
  "example_message = ''a'' @ [CHR 0x09] @ ''b'' @ [CHR 0x5C] @ [CHR 0xE9] @ [CHR 0x0A]"

definition read_only_filesystem :: filesystem where
  "read_only_filesystem = \<lparr>files = Map.empty, open_error = (\<lambda>path. Some (LibError ''permission denied'')),
     write_error = (\<lambda>path. None), LockValue = 0\<rparr>"

text \<open>A text whose encodings hold a slash, padding and a backquote.\<close>

definition example_text :: string where
  "example_text = ''?>?>''"

section \<open>Identifier validation: what \<open>CheckTableName\<close> accepts\<close>

lemma of_char_underscore: "((of_char c :: nat) = 95) = (c = CHR ''_'')"
proof -
  have "(of_char (CHR ''_'') :: nat) = 95" by simp
  then show ?thesis by (metis of_char_eq_iff)
qed

lemma in_class_start:
  "in_class [(CHR ''_'', CHR ''_''), (CHR ''A'', CHR ''Z''), (CHR ''a'', CHR ''z'')] c
     = is_letter_or_underscore c"
  using of_char_underscore [of c]
  by (simp add: in_class_def is_letter_or_underscore_def) linarith

lemma in_class_all:
  "in_class [(CHR ''_'', CHR ''_''), (CHR ''A'', CHR ''Z''), (CHR ''a'', CHR ''z''), (CHR ''0'', CHR ''9'')] c
     = is_identifier_char c"
  using of_char_underscore [of c]
  by (simp add: in_class_def is_identifier_char_def is_letter_or_underscore_def) linarith

lemma in_class_all_fun:
  "in_class [(CHR ''_'', CHR ''_''), (CHR ''A'', CHR ''Z''), (CHR ''a'', CHR ''z''), (CHR ''0'', CHR ''9'')]
     = is_identifier_char"
  by (rule ext) (rule in_class_all)

lemma match_star_only: "match_here [Star k] b s"
  by (induction s arbitrary: b) simp_all

lemma match_star_end: "match_here [Star k, EndText] b s = list_all (in_class k) s"
  by (induction s arbitrary: b) simp_all

lemma search_begin_later: "search (BeginText # ps) False s = False"
  by (induction s) simp_all

lemma search_begin: "search (BeginText # ps) True s = match_here ps True s"
  by (cases s) (simp_all add: search_begin_later)

lemma match_plus: "match_here [Plus k] b s = (case s of [] \<Rightarrow> False | c # cs \<Rightarrow> in_class k c)"
  by (cases s) (simp_all add: match_star_only)

lemma CheckTableName_chars:
  "CheckTableName t =
     (case t of [] \<Rightarrow> False
      | c # cs \<Rightarrow> is_letter_or_underscore c \<and> list_all is_identifier_char (c # cs))"
  by (cases t)
     (simp_all add: CheckTableName_def MatchString_def pattern_start_def pattern_all_def
        search_begin match_plus match_star_end in_class_start in_class_all in_class_all_fun
        del: match_here.simps search.simps)

text \<open>
  Claim C4. \<open>CheckTableName t\<close>, and \<open>CheckDatabaseName t\<close>, which is the same predicate,
  is true exactly when \<open>t\<close> matches \<^verbatim>\<open>^[_A-Za-z]+\<close> and \<^verbatim>\<open>^[_A-Za-z0-9]*$\<close>: when
  \<open>t\<close> starts with a letter or an underscore and holds letters, digits and underscores
  only. \<open>_abc123\<close> is accepted; \<open>1abc\<close>, \<open>ab-c\<close> and the empty string are refused.
\<close>

theorem CheckTableName_iff_identifier:
  "CheckTableName t = (fst (MatchString pattern_start t) \<and> fst (MatchString pattern_all t))
   \<and> CheckTableName t =
       (case t of [] \<Rightarrow> False
        | c # cs \<Rightarrow> is_letter_or_underscore c \<and> list_all is_identifier_char (c # cs))
   \<and> CheckDatabaseName t = CheckTableName t
   \<and> CheckTableName ''_abc123'' = True
   \<and> CheckTableName ''1abc'' = False
   \<and> CheckTableName ''ab-c'' = False
   \<and> CheckTableName [] = False"
proof -
  have "CheckTableName t = (fst (MatchString pattern_start t) \<and> fst (MatchString pattern_all t))"
    by (simp add: CheckTableName_def MatchString_def)
  moreover have "CheckDatabaseName t = CheckTableName t"
    by (simp add: CheckDatabaseName_def)
  moreover have "CheckTableName ''_abc123'' = True" "CheckTableName ''1abc'' = False"
      "CheckTableName ''ab-c'' = False" "CheckTableName [] = False"
    by (simp_all add: CheckTableName_chars is_letter_or_underscore_def is_identifier_char_def)
  ultimately show ?thesis
    using CheckTableName_chars [of t] by simp
qed

theorem CheckTableName_iff_identifier_witness:
  "CheckTableName ''users_2024'' = True \<and> CheckDatabaseName ''users_2024'' = True
   \<and> CheckTableName ''users;drop'' = False"
  using CheckTableName_iff_identifier [of "''users_2024''", THEN conjunct2]
    CheckTableName_iff_identifier [of "''users;drop''", THEN conjunct2]
  by (simp add: is_letter_or_underscore_def is_identifier_char_def)

section \<open>Encoding utilities: decoding errors\<close>

lemma Replace_to_std:
  "Replace [(''-'', ''+''), (''_'', ''/'')] (c # cs) =
     (if c = CHR ''-'' then CHR ''+'' # Replace [(''-'', ''+''), (''_'', ''/'')] cs
      else if c = CHR ''_'' then CHR ''/'' # Replace [(''-'', ''+''), (''_'', ''/'')] cs
      else c # Replace [(''-'', ''+''), (''_'', ''/'')] cs)"
  by (simp add: lookup_pair_def HasPrefix_def)

lemma Replace_to_url:
  "Replace [(''+'', ''-''), (''/'', ''_''), (''='', [])] (c # cs) =
     (if c = CHR ''+'' then CHR ''-'' # Replace [(''+'', ''-''), (''/'', ''_''), (''='', [])] cs
      else if c = CHR ''/'' then CHR ''_'' # Replace [(''+'', ''-''), (''/'', ''_''), (''='', [])] cs
      else if c = CHR ''='' then Replace [(''+'', ''-''), (''/'', ''_''), (''='', [])] cs
      else c # Replace [(''+'', ''-''), (''/'', ''_''), (''='', [])] cs)"
  by (simp add: lookup_pair_def HasPrefix_def)

lemma Replace_to_std_length: "length (Replace [(''-'', ''+''), (''_'', ''/'')] s) = length s"
  by (induction s) (simp_all add: Replace_to_std del: Replace.simps(2))

lemma pad4_nonempty: "s \<noteq> [] \<Longrightarrow> pad4 (Replace [(''-'', ''+''), (''_'', ''/'')] s) \<noteq> []"
  using Replace_to_std_length [of s] by (auto simp: pad4_def)

text \<open>The standard codecs refuse a string with a space in it.\<close>

lemma b64_DecodeString_space: "b64_DecodeString ''a b'' = ([], Some CorruptInput64)"
  by (simp add: b64_DecodeString_def encodeStd64_def)

lemma b64_DecodeString_space_padded: "b64_DecodeString ''a b='' = ([], Some CorruptInput64)"
  by (simp add: b64_DecodeString_def encodeStd64_def)

lemma b91_DecodeString_space: "b91_DecodeString ''a b'' = ([], Some CorruptInput91)"
  by (simp add: b91_DecodeString_def encodeStd91_def)

lemma Replace_to_std_space: "Replace [(''-'', ''+''), (''_'', ''/'')] ''a b'' = ''a b''"
  by (simp add: lookup_pair_def HasPrefix_def)

lemma Replace_unescape_space:
  "Replace [(''-g'', [CHR 0x60]), (''-d'', [CHR 0x24]), (''-q'', [CHR 0x22])] ''a b'' = ''a b''"
  by (simp add: lookup_pair_def HasPrefix_def)

text \<open>
  Claim C10. Whenever the codec reports an error on the string the decoding function
  hands to it, \<open>Base64_decode\<close>, \<open>Base64url_decode\<close> and \<open>Base91_decode\<close> (with and
  without unescaping) return the empty string with that error, whatever bytes the codec
  had decoded before it failed, and \<open>JSON_decode\<close> returns the nil value with the error.
  The codec and the JSON parser are arbitrary.
\<close>

theorem decode_error_returns_empty:
  "(s \<noteq> [] \<and> snd (dec64 s) \<noteq> None \<longrightarrow> Base64_decode dec64 s = ([], snd (dec64 s)))
   \<and> (s \<noteq> [] \<and> snd (dec64 (pad4 (Replace [(''-'', ''+''), (''_'', ''/'')] s))) \<noteq> None \<longrightarrow>
        Base64url_decode dec64 s =
          ([], snd (dec64 (pad4 (Replace [(''-'', ''+''), (''_'', ''/'')] s)))))
   \<and> (s \<noteq> [] \<and> snd (dec91 s) \<noteq> None \<longrightarrow> Base91_decode dec91 s False = ([], snd (dec91 s)))
   \<and> (s \<noteq> [] \<and>
        snd (dec91 (Replace [(''-g'', [CHR 0x60]), (''-d'', [CHR 0x24]), (''-q'', [CHR 0x22])] s)) \<noteq> None \<longrightarrow>
        Base91_decode dec91 s True =
          ([], snd (dec91 (Replace [(''-g'', [CHR 0x60]), (''-d'', [CHR 0x24]), (''-q'', [CHR 0x22])] s))))
   \<and> (snd (unmarshal s) \<noteq> None \<longrightarrow> JSON_decode unmarshal s = (None, snd (unmarshal s)))"
  using pad4_nonempty [of s]
  by (auto simp: Base64_decode_def Base64url_decode_def Base91_decode_def JSON_decode_def Let_def
      split: prod.splits)

theorem decode_error_returns_empty_witness:
  "Base64_decode b64_DecodeString ''a b'' = ([], Some CorruptInput64)
   \<and> Base64url_decode b64_DecodeString ''a b'' = ([], Some CorruptInput64)
   \<and> Base91_decode b91_DecodeString ''a b'' False = ([], Some CorruptInput91)
   \<and> Base91_decode b91_DecodeString ''a b'' True = ([], Some CorruptInput91)
   \<and> JSON_decode (\<lambda>s. (Some (0 :: nat), Some (LibError ''unexpected end of JSON input''))) ''a b''
       = (None, Some (LibError ''unexpected end of JSON input''))"
  using decode_error_returns_empty [of "''a b''" b64_DecodeString b91_DecodeString
      "\<lambda>s. (Some (0 :: nat), Some (LibError ''unexpected end of JSON input''))"]
  by (simp add: b64_DecodeString_space b64_DecodeString_space_padded b91_DecodeString_space
      Replace_to_std_space Replace_unescape_space pad4_def del: Replace.simps)

section \<open>Encoding utilities: the round trips\<close>

subsection \<open>Base64: four characters are three bytes\<close>

lemma index_of_nth: "distinct xs \<Longrightarrow> i < length xs \<Longrightarrow> index_of (xs ! i) xs = Some i"
proof (induction xs arbitrary: i)
  case Nil
  then show ?case by simp
next
  case (Cons x xs)
  show ?case
  proof (cases i)
    case 0
    then show ?thesis by simp
  next
    case (Suc j)
    with Cons.prems have "xs ! j \<in> set xs" "x \<notin> set xs" "j < length xs" by auto
    then have "xs ! j \<noteq> x" by auto
    with Cons Suc show ?thesis by auto
  qed
qed

lemma index_of_None: "x \<notin> set xs \<Longrightarrow> index_of x xs = None"
  by (induction xs) auto

lemma distinct_encodeStd64: "distinct encodeStd64"
  by (simp add: encodeStd64_def)

lemma length_encodeStd64: "length encodeStd64 = 64"
  by (simp add: encodeStd64_def)

lemma not_in_encodeStd64:
  "CHR ''='' \<notin> set encodeStd64" "CHR ''-'' \<notin> set encodeStd64" "CHR ''_'' \<notin> set encodeStd64"
  "CHR 0x0A \<notin> set encodeStd64" "CHR 0x0D \<notin> set encodeStd64"
  by (simp_all add: encodeStd64_def)

lemma index_of_enc64: "i < 64 \<Longrightarrow> index_of (enc64 i) encodeStd64 = Some i"
  unfolding enc64_def using index_of_nth [OF distinct_encodeStd64] length_encodeStd64 by simp

lemma enc64_in: "i < 64 \<Longrightarrow> enc64 i \<in> set encodeStd64"
  unfolding enc64_def using length_encodeStd64 by simp

lemma sextets_recombine:
  fixes val :: nat
  assumes "val < 16777216"
  shows "(val div 262144 mod 64) * 262144 + (val div 4096 mod 64) * 4096 + (val div 64 mod 64) * 64
           + val mod 64 = val"
proof -
  define q1 where "q1 = val div 64"
  define q2 where "q2 = q1 div 64"
  define q3 where "q3 = q2 div 64"
  define r0 where "r0 = val mod 64"
  define r1 where "r1 = q1 mod 64"
  define r2 where "r2 = q2 mod 64"
  have e1: "val = q1 * 64 + r0" by (simp add: q1_def r0_def)
  have e2: "q1 = q2 * 64 + r1" by (simp add: q2_def r1_def)
  have e3: "q2 = q3 * 64 + r2" by (simp add: q3_def r2_def)
  have d2: "val div 4096 = q2"
    using div_mult2_eq [of val 64 64] by (simp add: q2_def q1_def)
  have d3: "val div 262144 = q3"
    using div_mult2_eq [of val 4096 64] d2 by (simp add: q3_def)
  have "q3 * 262144 \<le> val"
    using e1 e2 e3 by linarith
  with assms have "q3 < 64" by linarith
  then have m3: "q3 mod 64 = q3" by simp
  have "q3 * 262144 + r2 * 4096 + r1 * 64 + r0 = val"
    using e1 e2 e3 by linarith
  then show ?thesis
    unfolding d3 d2 m3 r0_def r1_def r2_def q1_def by simp
qed

lemma three_bytes:
  fixes a b c :: nat
  assumes "b < 256" and "c < 256"
  shows "(a * 65536 + b * 256 + c) div 65536 = a"
    and "(a * 65536 + b * 256 + c) div 256 mod 256 = b"
    and "(a * 65536 + b * 256 + c) mod 256 = c"
proof -
  have low: "b * 256 + c < 65536" using assms by linarith
  have "(a * 65536 + b * 256 + c) = (b * 256 + c) + a * 65536" by simp
  then have "(a * 65536 + b * 256 + c) div 65536 = (b * 256 + c) div 65536 + a"
    by simp
  with low show "(a * 65536 + b * 256 + c) div 65536 = a" by simp
  have "(a * 65536 + b * 256 + c) = c + (a * 256 + b) * 256" by simp
  then have dv: "(a * 65536 + b * 256 + c) div 256 = c div 256 + (a * 256 + b)"
    by simp
  with assms have "(a * 65536 + b * 256 + c) div 256 = b + a * 256" by simp
  then show "(a * 65536 + b * 256 + c) div 256 mod 256 = b"
    using assms by simp
  have "(a * 65536 + b * 256 + c) mod 256 = (c + (a * 256 + b) * 256) mod 256"
    by (rule arg_cong [where f = "\<lambda>x. x mod 256"]) simp
  also have "\<dots> = c mod 256" by (rule mod_mult_self1)
  finally show "(a * 65536 + b * 256 + c) mod 256 = c"
    using assms by simp
qed

lemma char_of_byte: "(n :: nat) mod 256 = of_char c \<Longrightarrow> char_of n = c"
  by (metis char_of_mod_256 char_of_char)

lemma quantum_full:
  fixes a b c :: char
  defines "val \<equiv> (of_char a :: nat) * 65536 + of_char b * 256 + of_char c"
  shows "quantum_bytes (val div 262144 mod 64) (val div 4096 mod 64) (val div 64 mod 64) (val mod 64) 4
           = [a, b, c]"
proof -
  have ba: "(of_char a :: nat) < 256" and bb: "(of_char b :: nat) < 256" and bc: "(of_char c :: nat) < 256"
    by simp_all
  then have "val < 16777216" unfolding val_def by linarith
  then have re: "(val div 262144 mod 64) * 262144 + (val div 4096 mod 64) * 4096
      + (val div 64 mod 64) * 64 + val mod 64 = val"
    by (rule sextets_recombine)
  have "char_of (val div 65536) = a"
    using three_bytes(1) [OF bb bc, of "of_char a"] unfolding val_def by simp
  moreover have "char_of (val div 256) = b"
    using three_bytes(2) [OF bb bc, of "of_char a"] unfolding val_def by (intro char_of_byte) simp
  moreover have "char_of val = c"
    using three_bytes(3) [OF bb bc, of "of_char a"] unfolding val_def by (intro char_of_byte) simp
  ultimately show ?thesis
    unfolding quantum_bytes_def Let_def re by simp
qed

lemma quantum_two:
  fixes a b :: char
  defines "val \<equiv> (of_char a :: nat) * 65536 + of_char b * 256"
  shows "quantum_bytes (val div 262144 mod 64) (val div 4096 mod 64) (val div 64 mod 64) 0 3 = [a, b]"
proof -
  have v: "val = (of_char a :: nat) * 65536 + of_char b * 256 + of_char (CHR 0x00)"
    unfolding val_def by simp
  have "val = (of_char a * 1024 + of_char b * 4) * 64" unfolding val_def by simp
  then have "val mod 64 = 0" by simp
  with quantum_full [of a b "CHR 0x00", folded v] have
    "quantum_bytes (val div 262144 mod 64) (val div 4096 mod 64) (val div 64 mod 64) 0 4 = [a, b, CHR 0x00]"
    by simp
  then show ?thesis
    by (simp add: quantum_bytes_def Let_def)
qed

lemma quantum_one:
  fixes a :: char
  defines "val \<equiv> (of_char a :: nat) * 65536"
  shows "quantum_bytes (val div 262144 mod 64) (val div 4096 mod 64) 0 0 2 = [a]"
proof -
  have v: "val = (of_char a :: nat) * 65536 + of_char (CHR 0x00) * 256"
    unfolding val_def by simp
  have "val div 64 = of_char a * 16 * 64" unfolding val_def by simp
  then have "val div 64 mod 64 = 0" by simp
  with quantum_two [of a "CHR 0x00", folded v] have
    "quantum_bytes (val div 262144 mod 64) (val div 4096 mod 64) 0 0 3 = [a, CHR 0x00]"
    by simp
  then show ?thesis
    by (simp add: quantum_bytes_def Let_def)
qed

lemma decodeQuanta_roundtrip: "decodeQuanta (b64_EncodeToString s) = (s, None)"
proof (induction s rule: b64_EncodeToString.induct)
  case 1
  then show ?case by simp
next
  case (2 a)
  show ?case
    using quantum_one [of a] not_in_encodeStd64(1)
    by (simp add: Let_def index_of_enc64 index_of_None)
next
  case (3 a b)
  show ?case
    using quantum_two [of a b] not_in_encodeStd64(1)
    by (simp add: Let_def index_of_enc64 index_of_None)
next
  case (4 a b c rest)
  show ?case
    using quantum_full [of a b c] "4.IH"
    by (simp add: Let_def index_of_enc64)
qed

lemma to_url_std_char:
  assumes "x \<in> set encodeStd64"
  shows "\<exists>y. to_url (x # t) = y # to_url t \<and> (\<forall>u. to_std (y # u) = x # to_std u)"
proof -
  have x: "x \<noteq> CHR ''=''" "x \<noteq> CHR ''-''" "x \<noteq> CHR ''_''"
    using assms not_in_encodeStd64 by auto
  show ?thesis
    unfolding to_url_def to_std_def Replace_to_url Replace_to_std using x by auto
qed

lemma to_url_pad: "to_url ''='' = []" "to_url ''=='' = []" "to_url [] = []" "to_std [] = []"
  by (simp_all add: to_url_def to_std_def Replace_to_url del: Replace.simps(2))

lemma pad4_cons4: "pad4 (a # b # c # d # t) = a # b # c # d # pad4 t"
  by (simp add: pad4_def)

lemma to_url_quad:
  assumes "set [a, b, c, d] \<subseteq> set encodeStd64"
  shows "\<exists>a' b' c' d'. to_url (a # b # c # d # t) = a' # b' # c' # d' # to_url t
           \<and> (\<forall>u. to_std (a' # b' # c' # d' # u) = a # b # c # d # to_std u)"
proof -
  from assms have m: "a \<in> set encodeStd64" "b \<in> set encodeStd64" "c \<in> set encodeStd64"
    "d \<in> set encodeStd64" by simp_all
  obtain a' where a: "to_url (a # b # c # d # t) = a' # to_url (b # c # d # t)"
      "\<And>u. to_std (a' # u) = a # to_std u"
    using to_url_std_char [OF m(1), of "b # c # d # t"] by blast
  obtain b' where b: "to_url (b # c # d # t) = b' # to_url (c # d # t)"
      "\<And>u. to_std (b' # u) = b # to_std u"
    using to_url_std_char [OF m(2), of "c # d # t"] by blast
  obtain c' where c: "to_url (c # d # t) = c' # to_url (d # t)"
      "\<And>u. to_std (c' # u) = c # to_std u"
    using to_url_std_char [OF m(3), of "d # t"] by blast
  obtain d' where d: "to_url (d # t) = d' # to_url t"
      "\<And>u. to_std (d' # u) = d # to_std u"
    using to_url_std_char [OF m(4), of t] by blast
  show ?thesis
    using a b c d by simp
qed

lemma url_text_roundtrip: "pad4 (to_std (to_url (b64_EncodeToString s))) = b64_EncodeToString s"
proof (induction s rule: b64_EncodeToString.induct)
  case 1
  then show ?case by (simp add: to_url_pad pad4_def)
next
  case (2 a)
  define val where "val = (of_char a :: nat) * 65536"
  let ?e0 = "enc64 (val div 262144 mod 64)" and ?e1 = "enc64 (val div 4096 mod 64)"
  have E: "b64_EncodeToString [a] = [?e0, ?e1, CHR ''='', CHR ''='']"
    by (simp add: Let_def val_def)
  obtain x where x: "to_url (?e0 # ?e1 # ''=='') = x # to_url (?e1 # ''=='')"
      "\<And>u. to_std (x # u) = ?e0 # to_std u"
    using to_url_std_char [OF enc64_in, of "val div 262144 mod 64" "?e1 # ''==''"] by auto
  obtain y where y: "to_url (?e1 # ''=='') = y # to_url ''==''"
      "\<And>u. to_std (y # u) = ?e1 # to_std u"
    using to_url_std_char [OF enc64_in, of "val div 4096 mod 64" "''==''"] by auto
  show ?case
    unfolding E using x y by (simp add: to_url_pad pad4_def)
next
  case (3 a b)
  define val where "val = (of_char a :: nat) * 65536 + of_char b * 256"
  let ?e0 = "enc64 (val div 262144 mod 64)" and ?e1 = "enc64 (val div 4096 mod 64)"
    and ?e2 = "enc64 (val div 64 mod 64)"
  have E: "b64_EncodeToString [a, b] = [?e0, ?e1, ?e2, CHR ''='']"
    by (simp add: Let_def val_def)
  obtain x where x: "to_url (?e0 # ?e1 # ?e2 # ''='') = x # to_url (?e1 # ?e2 # ''='')"
      "\<And>u. to_std (x # u) = ?e0 # to_std u"
    using to_url_std_char [OF enc64_in, of "val div 262144 mod 64" "?e1 # ?e2 # ''=''"] by auto
  obtain y where y: "to_url (?e1 # ?e2 # ''='') = y # to_url (?e2 # ''='')"
      "\<And>u. to_std (y # u) = ?e1 # to_std u"
    using to_url_std_char [OF enc64_in, of "val div 4096 mod 64" "?e2 # ''=''"] by auto
  obtain z where z: "to_url (?e2 # ''='') = z # to_url ''=''"
      "\<And>u. to_std (z # u) = ?e2 # to_std u"
    using to_url_std_char [OF enc64_in, of "val div 64 mod 64" "''=''"] by auto
  show ?case
    unfolding E using x y z by (simp add: to_url_pad pad4_def)
next
  case (4 a b c rest)
  define val where "val = (of_char a :: nat) * 65536 + of_char b * 256 + of_char c"
  let ?e0 = "enc64 (val div 262144 mod 64)" and ?e1 = "enc64 (val div 4096 mod 64)"
    and ?e2 = "enc64 (val div 64 mod 64)" and ?e3 = "enc64 (val mod 64)"
  have E: "b64_EncodeToString (a # b # c # rest) = ?e0 # ?e1 # ?e2 # ?e3 # b64_EncodeToString rest"
    by (simp add: Let_def val_def)
  have "set [?e0, ?e1, ?e2, ?e3] \<subseteq> set encodeStd64"
    using enc64_in by simp
  from to_url_quad [OF this, of "b64_EncodeToString rest"]
  obtain a' b' c' d' where q:
      "to_url (?e0 # ?e1 # ?e2 # ?e3 # b64_EncodeToString rest)
         = a' # b' # c' # d' # to_url (b64_EncodeToString rest)"
      "\<And>u. to_std (a' # b' # c' # d' # u) = ?e0 # ?e1 # ?e2 # ?e3 # to_std u"
    by blast
  show ?case
    unfolding E q pad4_cons4 using "4.IH" by simp
qed

lemma b64_chars: "set (b64_EncodeToString s) \<subseteq> insert (CHR ''='') (set encodeStd64)"
  by (induction s rule: b64_EncodeToString.induct) (auto simp: Let_def enc64_in)

lemma b64_DecodeString_roundtrip: "b64_DecodeString (b64_EncodeToString s) = (s, None)"
proof -
  have "\<forall>c \<in> set (b64_EncodeToString s). c \<noteq> CHR 0x0A \<and> c \<noteq> CHR 0x0D"
    using b64_chars [of s] not_in_encodeStd64 by auto
  then have "filter (\<lambda>c. c \<noteq> CHR 0x0A \<and> c \<noteq> CHR 0x0D) (b64_EncodeToString s) = b64_EncodeToString s"
    by (simp add: filter_id_conv)
  then show ?thesis
    by (simp add: b64_DecodeString_def decodeQuanta_roundtrip)
qed

lemma b64_first:
  "s \<noteq> [] \<Longrightarrow> \<exists>x t. x \<in> set encodeStd64 \<and> b64_EncodeToString s = x # t"
  by (cases s rule: b64_EncodeToString.cases) (simp_all add: Let_def enc64_in)

lemma to_url_nonempty: "s \<noteq> [] \<Longrightarrow> to_url (b64_EncodeToString s) \<noteq> []"
proof -
  assume "s \<noteq> []"
  then obtain x t where i: "x \<in> set encodeStd64" "b64_EncodeToString s = x # t"
    using b64_first by blast
  with to_url_std_char [OF i(1), of t] show ?thesis by auto
qed

lemma Base64url_roundtrip:
  "s \<noteq> [] \<Longrightarrow> Base64url_decode b64_DecodeString (Base64url_encode b64_EncodeToString s) = (s, None)"
proof -
  assume s: "s \<noteq> []"
  have e: "Base64url_encode b64_EncodeToString s = to_url (b64_EncodeToString s)"
    using s by (simp add: Base64url_encode_def Base64_encode_def to_url_def)
  have ne: "b64_EncodeToString s \<noteq> []"
    using b64_first [OF s] by auto
  have "Base64url_decode b64_DecodeString (to_url (b64_EncodeToString s))
      = Base64_decode b64_DecodeString (pad4 (to_std (to_url (b64_EncodeToString s))))"
    using to_url_nonempty [OF s] by (simp add: Base64url_decode_def to_std_def)
  also have "\<dots> = Base64_decode b64_DecodeString (b64_EncodeToString s)"
    by (simp only: url_text_roundtrip)
  also have "\<dots> = (s, None)"
    using ne by (simp add: Base64_decode_def b64_DecodeString_roundtrip)
  finally show ?thesis
    unfolding e .
qed

subsection \<open>Base91: the bit queues of the encoder and the decoder\<close>

lemma distinct_encodeStd91: "distinct encodeStd91"
  by (simp add: encodeStd91_def)

lemma length_encodeStd91: "length encodeStd91 = 91"
  by (simp add: encodeStd91_def)

lemma hyphen_not_in_encodeStd91: "CHR ''-'' \<notin> set encodeStd91"
  by (simp add: encodeStd91_def)

lemma index_of_enc91: "i < 91 \<Longrightarrow> index_of (enc91 i) encodeStd91 = Some i"
  unfolding enc91_def using index_of_nth [OF distinct_encodeStd91] length_encodeStd91 by simp

lemma enc91_in: "i < 91 \<Longrightarrow> enc91 i \<in> set encodeStd91"
  unfolding enc91_def using length_encodeStd91 by simp

lemma escape91_step:
  "escape91 (c # cs) =
     (if c = CHR 0x22 then ''-q'' @ escape91 cs
      else if c = CHR 0x24 then ''-d'' @ escape91 cs
      else if c = CHR 0x60 then ''-g'' @ escape91 cs
      else c # escape91 cs)"
  by (simp add: escape91_def lookup_pair_def HasPrefix_def)

lemma unescape91_pair:
  "unescape91 (CHR ''-'' # CHR ''q'' # t) = CHR 0x22 # unescape91 t"
  "unescape91 (CHR ''-'' # CHR ''d'' # t) = CHR 0x24 # unescape91 t"
  "unescape91 (CHR ''-'' # CHR ''g'' # t) = CHR 0x60 # unescape91 t"
  by (simp_all add: unescape91_def lookup_pair_def HasPrefix_def)

lemma unescape91_other: "CHR ''-'' \<noteq> c \<Longrightarrow> unescape91 (c # t) = c # unescape91 t"
  by (auto simp: unescape91_def lookup_pair_def HasPrefix_def)

lemma escape91_Nil: "escape91 [] = []" "unescape91 [] = []"
  by (simp_all add: escape91_def unescape91_def)

lemma unescape_escape: "CHR ''-'' \<notin> set t \<Longrightarrow> unescape91 (escape91 t) = t"
  by (induction t) (simp_all add: escape91_step escape91_Nil unescape91_pair unescape91_other)

lemma escape91_nonempty: "t \<noteq> [] \<Longrightarrow> escape91 t \<noteq> []"
  by (cases t) (simp_all add: escape91_step)

lemma or_push_bit_add:
  fixes q :: nat
  assumes "q < 2 ^ n"
  shows "or q (push_bit n b) = q + b * 2 ^ n"
proof -
  have "\<And>i. \<not> bit q i \<or> \<not> bit (push_bit n b) i"
  proof -
    fix i
    show "\<not> bit q i \<or> \<not> bit (push_bit n b) i"
    proof (cases "i < n")
      case True
      then show ?thesis by (simp add: bit_push_bit_iff)
    next
      case False
      then have "2 ^ n \<le> (2 :: nat) ^ i" by simp
      with assms have "q < 2 ^ i" by linarith
      then have "\<not> bit q i" by (simp add: bit_iff_odd)
      then show ?thesis by simp
    qed
  qed
  then have "q + push_bit n b = or q (push_bit n b)"
    by (rule disjunctive_add)
  then show ?thesis by (simp add: push_bit_eq_mult)
qed

lemma and_8191: "and (q :: nat) 8191 = q mod 8192"
proof -
  have "(8191 :: nat) = mask 13" by (simp add: mask_eq_exp_minus_1)
  then have "and q 8191 = take_bit 13 q" by (simp add: take_bit_eq_mask)
  then show ?thesis by (simp add: take_bit_eq_mod)
qed

lemma and_16383: "and (q :: nat) 16383 = q mod 16384"
proof -
  have "(16383 :: nat) = mask 14" by (simp add: mask_eq_exp_minus_1)
  then have "and q 16383 = take_bit 14 q" by (simp add: take_bit_eq_mask)
  then show ?thesis by (simp add: take_bit_eq_mod)
qed

lemma char_of_add_mult: "char_of ((a :: nat) + b * 256) = char_of a"
proof -
  have "char_of (a + b * 256) = char_of ((a + b * 256) mod 256)"
    by (simp only: char_of_mod_256)
  also have "\<dots> = char_of (a mod 256)" by simp
  also have "\<dots> = char_of a" by (simp only: char_of_mod_256)
  finally show ?thesis .
qed

lemma bytes_of_add: "bytes_of (k + m) N = bytes_of k N @ bytes_of m (N div 256 ^ k)"
proof (induction k arbitrary: N)
  case 0
  then show ?case by simp
next
  case (Suc k)
  have "N div 256 div 256 ^ k = N div (256 * 256 ^ k)"
    by (simp add: div_mult2_eq)
  with Suc show ?case by simp
qed

lemma bytes_of_mod: "bytes_of k (A + B * 256 ^ k) = bytes_of k A"
proof (induction k arbitrary: A B)
  case 0
  then show ?case by simp
next
  case (Suc k)
  have "A + B * 256 ^ Suc k = A + (B * 256 ^ k) * 256" by simp
  then have h: "char_of (A + B * 256 ^ Suc k) = char_of A"
    by (simp only: char_of_add_mult)
  have "(A + B * 256 ^ Suc k) div 256 = A div 256 + B * 256 ^ k"
    by simp
  with Suc [of "A div 256" B] h show ?case by simp
qed

lemma bytes_of_nat_of_bytes: "bytes_of (length s) (nat_of_bytes s) = s"
proof (induction s)
  case Nil
  then show ?case by simp
next
  case (Cons b s)
  have "(of_char b :: nat) + 256 * nat_of_bytes s = of_char b + nat_of_bytes s * 256" by simp
  then have "char_of ((of_char b :: nat) + 256 * nat_of_bytes s) = b"
    by (simp only: char_of_add_mult char_of_char)
  with Cons show ?case by simp
qed

lemma emit_bytes_eq:
  "8 \<le> n \<Longrightarrow> emit_bytes q n = (bytes_of (n div 8) q, q div 256 ^ (n div 8), n mod 8)"
proof (induction q n rule: emit_bytes.induct)
  case (1 queue numBits)
  show ?case
  proof (cases "numBits - 8 > 7")
    case True
    then have ge: "8 \<le> numBits - 8" by simp
    have ih: "emit_bytes (drop_bit 8 queue) (numBits - 8)
        = (bytes_of ((numBits - 8) div 8) (drop_bit 8 queue),
           drop_bit 8 queue div 256 ^ ((numBits - 8) div 8), (numBits - 8) mod 8)"
      using "1.IH" [OF refl refl refl True ge] .
    have k: "numBits div 8 = Suc ((numBits - 8) div 8)"
      using "1.prems" by (simp add: le_div_geq)
    have m: "(numBits - 8) mod 8 = numBits mod 8"
      using "1.prems" by (simp add: le_mod_geq)
    have d: "drop_bit 8 queue = queue div 256"
      by (simp add: drop_bit_eq_div)
    have dd: "queue div 256 div 256 ^ ((numBits - 8) div 8) = queue div 256 ^ (numBits div 8)"
      unfolding k by (simp add: div_mult2_eq)
    show ?thesis
      using True ih unfolding d
      by (subst emit_bytes.simps) (simp add: Let_def k m dd d)
  next
    case False
    with "1.prems" have k: "numBits div 8 = 1" and m: "numBits mod 8 = numBits - 8"
      by (simp_all add: le_div_geq le_mod_geq)
    show ?thesis
      using False by (subst emit_bytes.simps) (simp add: Let_def k m drop_bit_eq_div)
  qed
qed

lemma dec_value:
  assumes "v div 91 < 91" and "dq < 2 ^ dn"
  shows "b91_decode_from dq dn None (enc91 (v mod 91) # enc91 (v div 91) # rest) =
     (case b91_decode_from ((dq + v * 2 ^ dn) div 256 ^ ((dn + (if v mod 8192 > 88 then 13 else 14)) div 8))
             ((dn + (if v mod 8192 > 88 then 13 else 14)) mod 8) None rest of
        (later, err) \<Rightarrow>
          (bytes_of ((dn + (if v mod 8192 > 88 then 13 else 14)) div 8) (dq + v * 2 ^ dn) @ later, err))"
proof -
  have i1: "index_of (enc91 (v mod 91)) encodeStd91 = Some (v mod 91)"
    by (rule index_of_enc91) simp
  have i2: "index_of (enc91 (v div 91)) encodeStd91 = Some (v div 91)"
    by (rule index_of_enc91) (rule assms(1))
  have v: "v mod 91 + v div 91 * 91 = v" by simp
  have q: "or dq (push_bit dn v) = dq + v * 2 ^ dn"
    by (rule or_push_bit_add) (rule assms(2))
  have e13: "emit_bytes (dq + v * 2 ^ dn) (dn + 13)
      = (bytes_of ((dn + 13) div 8) (dq + v * 2 ^ dn), (dq + v * 2 ^ dn) div 256 ^ ((dn + 13) div 8),
         (dn + 13) mod 8)"
    by (rule emit_bytes_eq) simp
  have e14: "emit_bytes (dq + v * 2 ^ dn) (dn + 14)
      = (bytes_of ((dn + 14) div 8) (dq + v * 2 ^ dn), (dq + v * 2 ^ dn) div 256 ^ ((dn + 14) div 8),
         (dn + 14) mod 8)"
    by (rule emit_bytes_eq) simp
  show ?thesis
    by (simp add: i1 i2 v q and_8191 e13 e14 Let_def del: bytes_of.simps split: prod.splits)
qed

lemma enc_step_small:
  assumes "q < 2 ^ n" and "n + 8 \<le> 13"
  shows "b91_encode_from q n (b # src) = b91_encode_from (q + of_char b * 2 ^ n) (n + 8) src"
  using assms or_push_bit_add [OF assms(1), of "of_char b"] by (simp add: Let_def)

lemma enc_step_13:
  assumes "q < 2 ^ n" and "13 < n + 8" and "(q + of_char b * 2 ^ n) mod 8192 > 88"
  shows "b91_encode_from q n (b # src) =
     enc91 ((q + of_char b * 2 ^ n) mod 8192 mod 91) # enc91 ((q + of_char b * 2 ^ n) mod 8192 div 91)
       # b91_encode_from ((q + of_char b * 2 ^ n) div 8192) (n + 8 - 13) src"
  using assms or_push_bit_add [OF assms(1), of "of_char b"]
  by (simp add: Let_def and_8191 drop_bit_eq_div)

lemma enc_step_14:
  assumes "q < 2 ^ n" and "13 < n + 8" and "(q + of_char b * 2 ^ n) mod 8192 \<le> 88"
  shows "b91_encode_from q n (b # src) =
     enc91 ((q + of_char b * 2 ^ n) mod 16384 mod 91) # enc91 ((q + of_char b * 2 ^ n) mod 16384 div 91)
       # b91_encode_from ((q + of_char b * 2 ^ n) div 16384) (n + 8 - 14) src"
  using assms or_push_bit_add [OF assms(1), of "of_char b"]
  by (simp add: Let_def and_8191 and_16383 drop_bit_eq_div)

lemma pow256: "(256 :: nat) ^ k = 2 ^ (8 * k)"
proof -
  have "(256 :: nat) = 2 ^ 8" by simp
  then show ?thesis by (simp only: power_mult)
qed

lemma value_step:
  fixes q1 n1 w dq dn v :: nat
  assumes IH: "\<And>q n dq dn. q < 2 ^ n \<Longrightarrow> n \<le> 13 \<Longrightarrow> dq < 2 ^ dn \<Longrightarrow> dn \<le> 7 \<Longrightarrow> (dn + n) mod 8 = 0 \<Longrightarrow>
      b91_decode_from dq dn None (b91_encode_from q n bs)
        = (bytes_of ((dn + n) div 8 + length bs) (dq + 2 ^ dn * (q + 2 ^ n * nat_of_bytes bs)), None)"
    and q1: "q1 < 2 ^ n1" and w: "w \<le> n1" "n1 \<le> 21" "w = 13 \<or> w = 14"
    and dq: "dq < 2 ^ dn" and dn: "dn \<le> 7" and sync: "(dn + n1) mod 8 = 0"
    and v: "v = q1 mod 2 ^ w" "v div 91 < 91" "(if v mod 8192 > 88 then 13 else 14) = w"
  shows "b91_decode_from dq dn None
           (enc91 (v mod 91) # enc91 (v div 91) # b91_encode_from (q1 div 2 ^ w) (n1 - w) bs)
         = (bytes_of ((dn + n1) div 8 + length bs) (dq + 2 ^ dn * (q1 + 2 ^ n1 * nat_of_bytes bs)), None)"
proof -
  define k where "k = (dn + w) div 8"
  define dn' where "dn' = (dn + w) mod 8"
  define A where "A = dq + v * 2 ^ dn"
  define q' where "q' = q1 div 2 ^ w"
  define n' where "n' = n1 - w"
  define N where "N = nat_of_bytes bs"
  define Y where "Y = q' + 2 ^ n' * N"
  define dq' where "dq' = A div 256 ^ k"
  have f1: "dn + w = dn' + 8 * k"
    unfolding k_def dn'_def by simp
  have n1: "n1 = w + n'"
    unfolding n'_def using w(1) by simp
  have pw: "(2 :: nat) ^ dn * 2 ^ w = 2 ^ dn' * 256 ^ k"
    unfolding pow256 power_add [symmetric] f1 ..
  have vlt: "v < 2 ^ w"
    unfolding v(1) by simp
  have "v * 2 ^ dn + 2 ^ dn \<le> 2 ^ dn * 2 ^ w"
  proof -
    have "v + 1 \<le> 2 ^ w" using vlt by simp
    then have "(v + 1) * 2 ^ dn \<le> 2 ^ w * 2 ^ dn" by (rule mult_le_mono1)
    then show ?thesis by (simp add: algebra_simps)
  qed
  then have "A < 2 ^ dn * 2 ^ w"
    unfolding A_def using dq by linarith
  then have f2: "A < 2 ^ dn' * 256 ^ k"
    unfolding pw .
  have f3: "dq' < 2 ^ dn'"
    unfolding dq'_def using f2 by (rule less_mult_imp_div_less)
  have "q1 < 2 ^ n' * 2 ^ w"
    using q1 unfolding n1 by (simp add: power_add mult.commute)
  then have f4: "q' < 2 ^ n'"
    unfolding q'_def by (rule less_mult_imp_div_less)
  have f5: "n' \<le> 13"
    unfolding n'_def using w by auto
  have f5': "dn' \<le> 7"
    unfolding dn'_def by simp
  have tot: "dn + n1 = (dn' + n') + 8 * k"
    using f1 n1 by simp
  have f6: "(dn' + n') mod 8 = 0"
    using sync unfolding tot by simp
  have f11: "(dn + n1) div 8 = k + (dn' + n') div 8"
    unfolding tot by simp
  have ih: "b91_decode_from dq' dn' None (b91_encode_from q' n' bs)
      = (bytes_of ((dn' + n') div 8 + length bs) (dq' + 2 ^ dn' * Y), None)"
    unfolding Y_def N_def by (rule IH [OF f4 f5 f3 f5' f6])
  have dv: "b91_decode_from dq dn None (enc91 (v mod 91) # enc91 (v div 91) # b91_encode_from q' n' bs)
      = (bytes_of k A @ bytes_of ((dn' + n') div 8 + length bs) (dq' + 2 ^ dn' * Y), None)"
    unfolding dec_value [OF v(2) dq] v(3) k_def [symmetric] dn'_def [symmetric] A_def [symmetric]
      dq'_def [symmetric] ih
    by simp
  have q1v: "q1 = v + q' * 2 ^ w"
    unfolding v(1) q'_def using div_mult_mod_eq [of q1 "2 ^ w"] by linarith
  have T: "dq + 2 ^ dn * (q1 + 2 ^ n1 * N) = A + (Y * 2 ^ dn') * 256 ^ k"
  proof -
    have "dq + 2 ^ dn * (q1 + 2 ^ n1 * N) = dq + 2 ^ dn * (v + q' * 2 ^ w + 2 ^ w * 2 ^ n' * N)"
      unfolding n1 power_add using q1v by simp
    also have "\<dots> = A + (2 ^ dn * 2 ^ w) * (q' + 2 ^ n' * N)"
      unfolding A_def by (simp add: algebra_simps)
    also have "\<dots> = A + (Y * 2 ^ dn') * 256 ^ k"
      unfolding pw Y_def by (simp add: algebra_simps)
    finally show ?thesis .
  qed
  have dvd: "(A + (Y * 2 ^ dn') * 256 ^ k) div 256 ^ k = dq' + 2 ^ dn' * Y"
    unfolding dq'_def by simp
  have "bytes_of ((dn + n1) div 8 + length bs) (dq + 2 ^ dn * (q1 + 2 ^ n1 * N))
      = bytes_of (k + ((dn' + n') div 8 + length bs)) (A + (Y * 2 ^ dn') * 256 ^ k)"
    unfolding T f11 by (simp add: add.assoc)
  also have "\<dots> = bytes_of k A @ bytes_of ((dn' + n') div 8 + length bs) (dq' + 2 ^ dn' * Y)"
    unfolding bytes_of_add bytes_of_mod dvd ..
  finally show ?thesis
    using dv unfolding q'_def n'_def N_def by simp
qed

lemma small_power: "(q :: nat) < 2 ^ n \<Longrightarrow> n \<le> 6 \<Longrightarrow> q < 64"
proof -
  assume q: "q < 2 ^ n" and n: "n \<le> 6"
  have "(2 :: nat) ^ n \<le> 2 ^ 6" using n by (intro power_increasing) simp_all
  with q show ?thesis by simp
qed

lemma below_8192: "(q :: nat) < 2 ^ n \<Longrightarrow> n \<le> 13 \<Longrightarrow> q < 8192"
proof -
  assume q: "q < 2 ^ n" and n: "n \<le> 13"
  have "(2 :: nat) ^ n \<le> 2 ^ 13" using n by (intro power_increasing) simp_all
  with q show ?thesis by simp
qed

lemma div_91: "(v :: nat) \<le> 8280 \<Longrightarrow> v div 91 < 91"
  by (simp add: div_less_iff_less_mult)

lemma single_count:
  fixes n dn :: nat
  assumes "0 < n" "n \<le> 7" "dn \<le> 7" "(dn + n) mod 8 = 0"
  shows "(dn + n) div 8 = 1"
proof -
  define m where "m = (dn + n) div 8"
  have "m * 8 + (dn + n) mod 8 = dn + n" unfolding m_def by (rule div_mult_mod_eq)
  with assms(4) have "m * 8 = dn + n" by simp
  with assms(1-3) have "m = 1" by linarith
  then show ?thesis unfolding m_def .
qed

lemma double_count:
  fixes n dn w :: nat
  assumes "7 < n \<or> n = 7 \<and> w = 13" "n \<le> 13" "dn \<le> 7" "(dn + n) mod 8 = 0" "w = 13 \<or> w = 14"
  shows "(dn + w) div 8 = (dn + n) div 8"
proof -
  define m where "m = (dn + n) div 8"
  have "m * 8 + (dn + n) mod 8 = dn + n" unfolding m_def by (rule div_mult_mod_eq)
  with assms(4) have e: "m * 8 = dn + n" by simp
  with assms(1-3) have "m = 1 \<or> m = 2" by linarith
  then have "8 * m \<le> dn + w \<and> dn + w < 8 * Suc m"
  proof
    assume "m = 1"
    with e have "dn + n = 8" by simp
    with \<open>m = 1\<close> assms(1,2,3,5) show ?thesis by auto
  next
    assume "m = 2"
    with e have "dn + n = 16" by simp
    with \<open>m = 2\<close> assms(1,2,3,5) show ?thesis by auto
  qed
  then have "(dn + w) div 8 = m" by (intro div_nat_eqI) simp_all
  then show ?thesis unfolding m_def .
qed

lemma tail_single:
  fixes q n dq dn :: nat
  assumes "0 < n" "n \<le> 7" "q \<le> 90" and dq: "dq < 2 ^ dn" and dn: "dn \<le> 7"
    and sync: "(dn + n) mod 8 = 0"
  shows "b91_decode_from dq dn None (b91_encode_from q n [])
           = (bytes_of ((dn + n) div 8) (dq + 2 ^ dn * q), None)"
proof -
  have k: "(dn + n) div 8 = Suc 0"
    using single_count [OF assms(1,2) dn sync] by simp
  have i: "index_of (enc91 q) encodeStd91 = Some q"
    by (rule index_of_enc91) (use assms(3) in simp)
  have o: "or dq (push_bit dn q) = dq + q * 2 ^ dn"
    by (rule or_push_bit_add) (rule dq)
  have e: "b91_encode_from q n [] = [enc91 q]"
    using assms(1-3) by simp
  show ?thesis
    unfolding e k by (simp add: i o mult.commute)
qed

lemma tail_double:
  fixes q n dq dn :: nat
  assumes q: "q < 2 ^ n" and n: "n \<le> 13" and dq: "dq < 2 ^ dn" and dn: "dn \<le> 7"
    and sync: "(dn + n) mod 8 = 0" and double: "n > 7 \<or> q > 90"
  shows "b91_decode_from dq dn None (b91_encode_from q n [])
           = (bytes_of ((dn + n) div 8) (dq + 2 ^ dn * q), None)"
proof -
  have q8192: "q < 8192" using below_8192 [OF q n] .
  have d: "q div 91 < 91"
    using q8192 by (intro div_91) simp
  have m: "q mod 8192 = q" using q8192 by simp
  define w :: nat where "w = (if q > 88 then 13 else 14)"
  have w: "w = 13 \<or> w = 14" by (simp add: w_def)
  have seven: "7 < n \<or> n = 7 \<and> w = 13"
  proof (cases "7 < n")
    case True
    then show ?thesis by simp
  next
    case False
    with double have big: "q > 90" by simp
    have "\<not> n \<le> 6" using small_power [OF q] big by fastforce
    with False big show ?thesis by (simp add: w_def)
  qed
  have k: "(dn + w) div 8 = (dn + n) div 8"
    by (rule double_count [OF seven n dn sync w])
  have pos: "0 < n" using seven by auto
  have e: "b91_encode_from q n [] = [enc91 (q mod 91), enc91 (q div 91)]"
    using double pos by auto
  have t: "b91_decode_from dq dn None [enc91 (q mod 91), enc91 (q div 91)]
      = (bytes_of ((dn + w) div 8) (dq + q * 2 ^ dn), None)"
    unfolding dec_value [OF d dq] m w_def [symmetric] by simp
  show ?thesis
    unfolding e t k by (simp add: mult.commute)
qed

lemma tail_roundtrip:
  fixes q n dq dn :: nat
  assumes q: "q < 2 ^ n" and n: "n \<le> 13" and dq: "dq < 2 ^ dn" and dn: "dn \<le> 7"
    and sync: "(dn + n) mod 8 = 0"
  shows "b91_decode_from dq dn None (b91_encode_from q n [])
           = (bytes_of ((dn + n) div 8) (dq + 2 ^ dn * q), None)"
proof -
  consider (empty) "n = 0" | (single) "0 < n" "n \<le> 7" "q \<le> 90" | (double) "n > 7 \<or> q > 90"
    by linarith
  then show ?thesis
  proof cases
    case empty
    with sync dn have "dn = 0" by simp
    with empty show ?thesis by simp
  next
    case single
    then show ?thesis by (rule tail_single [OF _ _ _ dq dn sync])
  next
    case double
    then show ?thesis by (rule tail_double [OF q n dq dn sync])
  qed
qed

lemma b91_roundtrip_from:
  fixes q n dq dn :: nat
  assumes "q < 2 ^ n" and "n \<le> 13" and "dq < 2 ^ dn" and "dn \<le> 7" and "(dn + n) mod 8 = 0"
  shows "b91_decode_from dq dn None (b91_encode_from q n src)
           = (bytes_of ((dn + n) div 8 + length src) (dq + 2 ^ dn * (q + 2 ^ n * nat_of_bytes src)), None)"
  using assms
proof (induction src arbitrary: q n dq dn)
  case Nil
  then show ?case using tail_roundtrip [of q n dq dn] by simp
next
  case (Cons b bs)
  define B :: nat where "B = of_char b"
  define q1 where "q1 = q + B * 2 ^ n"
  define n1 where "n1 = n + 8"
  have B: "B < 256" unfolding B_def by simp
  define P :: nat where "P = 2 ^ n"
  have "B + 1 \<le> 256" using B by simp
  then have "(B + 1) * P \<le> 256 * P" by (rule mult_le_mono1)
  then have "B * P + P \<le> 256 * P" by (simp add: algebra_simps)
  moreover have "q < P" using Cons.prems(1) unfolding P_def .
  ultimately have "q + B * P < P * 256" by linarith
  then have q1: "q1 < 2 ^ n1"
    unfolding q1_def n1_def power_add P_def by simp
  have sync1: "(dn + n1) mod 8 = 0"
    using Cons.prems(5) unfolding n1_def by presburger
  have count: "(dn + n) div 8 + length (b # bs) = (dn + n1) div 8 + length bs"
    unfolding n1_def by simp
  have total: "q + 2 ^ n * nat_of_bytes (b # bs) = q1 + 2 ^ n1 * nat_of_bytes bs"
    unfolding q1_def n1_def power_add B_def by (simp add: algebra_simps)
  have goal: "b91_decode_from dq dn None (b91_encode_from q n (b # bs))
      = (bytes_of ((dn + n1) div 8 + length bs) (dq + 2 ^ dn * (q1 + 2 ^ n1 * nat_of_bytes bs)), None)"
  proof (cases "n1 \<le> 13")
    case True
    have "b91_encode_from q n (b # bs) = b91_encode_from q1 n1 bs"
      unfolding q1_def n1_def B_def
      by (rule enc_step_small) (use Cons.prems(1) True in \<open>simp_all add: n1_def\<close>)
    then show ?thesis
      using Cons.IH [OF q1 True Cons.prems(3) Cons.prems(4) sync1] by simp
  next
    case False
    then have big: "13 < n + 8" unfolding n1_def by simp
    have n21: "n1 \<le> 21" using Cons.prems(2) unfolding n1_def by simp
    show ?thesis
    proof (cases "q1 mod 8192 > 88")
      case True
      define v where "v = q1 mod 2 ^ 13"
      have v13: "v = q1 mod 8192" unfolding v_def by simp
      have e: "b91_encode_from q n (b # bs)
          = enc91 (v mod 91) # enc91 (v div 91) # b91_encode_from (q1 div 2 ^ 13) (n1 - 13) bs"
        using enc_step_13 [OF Cons.prems(1) big, of b bs] True
        unfolding q1_def [symmetric] B_def [symmetric] v13 n1_def by simp
      have vd: "v div 91 < 91"
        by (rule div_91) (simp add: v13 less_imp_le [OF less_le_trans [OF mod_less_divisor]])
      have vw: "(if v mod 8192 > 88 then 13 else 14) = (13 :: nat)"
        using True by (simp add: v13)
      show ?thesis
        unfolding e
        by (rule value_step [OF Cons.IH q1 _ n21 _ Cons.prems(3) Cons.prems(4) sync1 v_def vd vw])
           (use False in simp_all)
    next
      case False
      define v where "v = q1 mod 2 ^ 14"
      have v14: "v = q1 mod 16384" unfolding v_def by simp
      have e: "b91_encode_from q n (b # bs)
          = enc91 (v mod 91) # enc91 (v div 91) # b91_encode_from (q1 div 2 ^ 14) (n1 - 14) bs"
        using enc_step_14 [OF Cons.prems(1) big, of b bs] False
        unfolding q1_def [symmetric] B_def [symmetric] v14 n1_def by simp
      have low: "v mod 8192 = q1 mod 8192"
        unfolding v14 by (simp add: mod_mod_cancel)
      have "v = v mod 8192 + 8192 * (v div 8192)" by simp
      moreover have "v div 8192 < 2"
        unfolding v14 by (simp add: div_less_iff_less_mult)
      ultimately have "v \<le> 8280"
        using False low by linarith
      then have vd: "v div 91 < 91" by (rule div_91)
      have vw: "(if v mod 8192 > 88 then 13 else 14) = (14 :: nat)"
        using False by (simp add: low)
      show ?thesis
        unfolding e
        by (rule value_step [OF Cons.IH q1 _ n21 _ Cons.prems(3) Cons.prems(4) sync1 v_def vd vw])
           (use big in \<open>simp_all add: n1_def\<close>)
    qed
  qed
  show ?case
    unfolding count total by (rule goal)
qed

lemma b91_DecodeString_roundtrip: "b91_DecodeString (b91_EncodeToString s) = (s, None)"
  using b91_roundtrip_from [of 0 0 0 0 s]
  by (simp add: b91_DecodeString_def b91_EncodeToString_def bytes_of_nat_of_bytes)

lemma index_of_Some_in: "index_of x xs = Some i \<Longrightarrow> x \<in> set xs"
  by (induction xs arbitrary: i) (auto split: if_splits)

lemma b91_decoded_alphabet:
  "b91_decode_from q n v t = (out, None) \<Longrightarrow> set t \<subseteq> set encodeStd91"
proof (induction t arbitrary: q n v out)
  case Nil
  then show ?case by simp
next
  case (Cons c t)
  from Cons.prems obtain d where d: "index_of c encodeStd91 = Some d"
    by (cases "index_of c encodeStd91") auto
  then have c: "c \<in> set encodeStd91" by (rule index_of_Some_in)
  have "set t \<subseteq> set encodeStd91"
  proof (cases v)
    case None
    with Cons.prems d have "b91_decode_from q n (Some d) t = (out, None)" by simp
    then show ?thesis by (rule Cons.IH)
  next
    case (Some w)
    with Cons.prems d obtain q' n' later where "b91_decode_from q' n' None t = (later, None)"
      by (auto simp: Let_def split: prod.splits)
    then show ?thesis by (rule Cons.IH)
  qed
  with c show ?case by simp
qed

lemma b91_encoded_alphabet: "set (b91_EncodeToString s) \<subseteq> set encodeStd91"
  using b91_DecodeString_roundtrip [of s]
  by (auto simp: b91_DecodeString_def dest: b91_decoded_alphabet)

lemma b91_encode_from_nonempty: "0 < n \<or> src \<noteq> [] \<Longrightarrow> b91_encode_from q n src \<noteq> []"
proof (induction src arbitrary: q n)
  case Nil
  then show ?case by simp
next
  case (Cons b bs)
  have "b91_encode_from (or q (push_bit n (of_char b))) (n + 8) bs \<noteq> []"
    by (rule Cons.IH) simp
  then show ?case by (simp add: Let_def)
qed

lemma b91_encoded_nonempty: "s \<noteq> [] \<Longrightarrow> b91_EncodeToString s \<noteq> []"
  by (simp add: b91_EncodeToString_def b91_encode_from_nonempty)

lemma Base91_roundtrip:
  assumes s: "s \<noteq> []"
  shows "Base91_decode b91_DecodeString (Base91_encode b91_EncodeToString s e) e = (s, None)"
proof (cases e)
  case True
  have hyphen: "CHR ''-'' \<notin> set (b91_EncodeToString s)"
    using b91_encoded_alphabet [of s] hyphen_not_in_encodeStd91 by auto
  have enc: "Base91_encode b91_EncodeToString s e = escape91 (b91_EncodeToString s)"
    using s True by (simp add: Base91_encode_def escape91_def)
  have ne: "escape91 (b91_EncodeToString s) \<noteq> []"
    by (rule escape91_nonempty) (rule b91_encoded_nonempty [OF s])
  have "Base91_decode b91_DecodeString (escape91 (b91_EncodeToString s)) e
      = (case b91_DecodeString (unescape91 (escape91 (b91_EncodeToString s))) of
           (dataBytes, err) \<Rightarrow> ((if err \<noteq> None then [] else dataBytes), err))"
    using ne True by (simp add: Base91_decode_def unescape91_def)
  also have "\<dots> = (s, None)"
    by (simp add: unescape_escape [OF hyphen] b91_DecodeString_roundtrip)
  finally show ?thesis unfolding enc .
next
  case False
  have enc: "Base91_encode b91_EncodeToString s e = b91_EncodeToString s"
    using s False by (simp add: Base91_encode_def)
  show ?thesis
    unfolding enc using False b91_encoded_nonempty [OF s]
    by (simp add: Base91_decode_def b91_DecodeString_roundtrip)
qed

lemma example_encodings:
  "Base64url_encode b64_EncodeToString example_text = ''Pz4_Pg''"
  "Base91_encode b91_EncodeToString example_text True = ''I-gzyP''"
  "Base91_encode b91_EncodeToString example_text False = ''I'' @ [CHR 0x60] @ ''zyP''"
proof -
  have n: "example_text \<noteq> []" by (simp add: example_text_def)
  have e64: "b64_EncodeToString example_text = ''Pz4/Pg==''"
    by (simp add: example_text_def Let_def enc64_def encodeStd64_def)
  have e91: "b91_EncodeToString example_text = ''I'' @ [CHR 0x60] @ ''zyP''"
    by (simp add: b91_EncodeToString_def example_text_def Let_def enc91_def encodeStd91_def)
  show "Base64url_encode b64_EncodeToString example_text = ''Pz4_Pg''"
    using n by (simp add: Base64url_encode_def Base64_encode_def e64 lookup_pair_def HasPrefix_def)
  show "Base91_encode b91_EncodeToString example_text True = ''I-gzyP''"
    using n by (simp add: Base91_encode_def e91 lookup_pair_def HasPrefix_def)
  show "Base91_encode b91_EncodeToString example_text False = ''I'' @ [CHR 0x60] @ ''zyP''"
    using n by (simp add: Base91_encode_def e91)
qed

text \<open>
  Claim C8. For every string \<open>s\<close> that is not empty, \<open>Base64url_decode\<close> of
  \<open>Base64url_encode\<close> of \<open>s\<close> is \<open>s\<close> with a nil error, and for both values of the escape
  flag \<open>Base91_decode\<close> of \<open>Base91_encode\<close> of \<open>s\<close>, under the same flag, is \<open>s\<close> with a nil
  error. The codecs are the standard encodings of the two libraries.
\<close>

theorem encode_decode_roundtrip:
  "s \<noteq> [] \<longrightarrow>
     Base64url_decode b64_DecodeString (Base64url_encode b64_EncodeToString s) = (s, None)
     \<and> (\<forall>e. Base91_decode b91_DecodeString (Base91_encode b91_EncodeToString s e) e = (s, None))"
  using Base64url_roundtrip [of s] Base91_roundtrip [of s] by blast

theorem encode_decode_roundtrip_witness:
  "example_text \<noteq> []
   \<and> Base64url_encode b64_EncodeToString example_text = ''Pz4_Pg''
   \<and> Base64url_decode b64_DecodeString ''Pz4_Pg'' = (example_text, None)
   \<and> Base91_encode b91_EncodeToString example_text True = ''I-gzyP''
   \<and> Base91_decode b91_DecodeString ''I-gzyP'' True = (example_text, None)
   \<and> Base91_encode b91_EncodeToString example_text False = ''I'' @ [CHR 0x60] @ ''zyP''
   \<and> Base91_decode b91_DecodeString (''I'' @ [CHR 0x60] @ ''zyP'') False = (example_text, None)"
proof -
  have n: "example_text \<noteq> []" by (simp add: example_text_def)
  from encode_decode_roundtrip [of example_text] n
  have "Base64url_decode b64_DecodeString (Base64url_encode b64_EncodeToString example_text)
          = (example_text, None)"
    and "Base91_decode b91_DecodeString (Base91_encode b91_EncodeToString example_text True) True
          = (example_text, None)"
    and "Base91_decode b91_DecodeString (Base91_encode b91_EncodeToString example_text False) False
          = (example_text, None)"
    by blast+
  then show ?thesis
    unfolding example_encodings using n by simp
qed

section \<open>The connection handle\<close>

text \<open>
  Claim C2, as amended. On a configuration whose handle is nil (never opened, or closed
  by \<open>Close\<close>), \<open>Exec\<close>, \<open>Query\<close>, \<open>GetSQLTableInfo\<close> and \<open>GetTableInfo\<close> of both variants
  and \<open>TableExists\<close> return the error "not connected" and no result. \<open>QueryRow\<close> has no
  error to return: it calls the nil handle and panics.
\<close>

theorem not_connected_on_nil_handle:
  "(SQLiteDBStruct.DB conn = None \<longrightarrow>
      SQLite_Exec conn query args = Returned (None, Some not_connected)
    \<and> SQLite_Query conn query args = Returned (None, Some not_connected)
    \<and> SQLite_GetSQLTableInfo cv conn table = Returned ([], Map.empty, Some not_connected)
    \<and> SQLite_GetTableInfo conn table = Returned ([], Map.empty, Some not_connected)
    \<and> SQLite_QueryRow conn query args = Panic)
   \<and> (MySQLdbStruct.DB mconn = None \<longrightarrow>
      MySQL_Exec mconn query args = Returned (None, Some not_connected)
    \<and> MySQL_Query mconn query args = Returned (None, Some not_connected)
    \<and> TableExists cv mconn table = Returned (False, Some not_connected)
    \<and> MySQL_GetSQLTableInfo cv mconn table = Returned ([], Map.empty, Some not_connected)
    \<and> MySQL_GetTableInfo mconn table = Returned ([], Map.empty, Some not_connected)
    \<and> MySQL_QueryRow mconn query args = Panic)
   \<and> SQLiteDBStruct.DB (fst (SQLite_Close conn)) = None
   \<and> MySQLdbStruct.DB (fst (MySQL_Close mconn)) = None"
  by (simp add: SQLite_Exec_def SQLite_Query_def SQLite_GetSQLTableInfo_def SQLite_GetTableInfo_def
      SQLite_QueryRow_def MySQL_Exec_def MySQL_Query_def TableExists_def MySQL_GetSQLTableInfo_def
      MySQL_GetTableInfo_def MySQL_QueryRow_def check_connection_def SQLite_Close_def MySQL_Close_def)

theorem not_connected_on_nil_handle_witness:
  "SQLite_Exec never_opened ''DELETE FROM t;'' [] = Returned (None, Some not_connected)
   \<and> SQLite_GetTableInfo never_opened ''t'' = Returned ([], Map.empty, Some not_connected)
   \<and> MySQL_Query example_conn ''SELECT 1;'' [] = Returned (None, Some not_connected)
   \<and> TableExists example_conversions example_conn ''t'' = Returned (False, Some not_connected)"
  using not_connected_on_nil_handle
    [of never_opened "''DELETE FROM t;''" "[]" example_conversions "''t''" example_conn]
    not_connected_on_nil_handle
    [of never_opened "''SELECT 1;''" "[]" example_conversions "''t''" example_conn]
  by (simp add: never_opened_def example_conn_def)

text \<open>
  The claim as stated fails: \<open>QueryRow\<close> and \<open>QueryRecords\<close> of both variants call the
  nil handle without a check, and panic.
\<close>

theorem not_connected_counterexample:
  "SQLite_QueryRow never_opened ''SELECT 1;'' [] = Panic
   \<and> SQLite_QueryRecords (\<lambda>x. 0) never_opened ''SELECT 1;'' [] = Panic
   \<and> MySQL_QueryRow example_conn ''SELECT 1;'' [] = Panic
   \<and> MySQL_QueryRecords example_converters example_conn ''SELECT 1;'' [] = Panic"
  by (simp add: SQLite_QueryRow_def SQLite_QueryRecords_def MySQL_QueryRow_def MySQL_QueryRecords_def
      never_opened_def example_conn_def)

section \<open>\<open>Connect\<close> and the environment (client-server variant)\<close>

lemma overlay_fields:
  "checkENV \<noteq> [] \<and> hd checkENV \<Longrightarrow>
     Host (overlay_environment w conn checkENV) = Getenv w ''MYSQL_HOST''
   \<and> MySQLdbStruct.User (overlay_environment w conn checkENV) = Getenv w ''MYSQL_USER''
   \<and> Password (overlay_environment w conn checkENV) = Getenv w ''MYSQL_PWD''
   \<and> MySQLdbStruct.AllowNativePasswords (overlay_environment w conn checkENV)
        = (Getenv w ''MYSQL_ALLOW_NATIVE_PASSWORDS'' = ''true'')
   \<and> MySQLdbStruct.Database (overlay_environment w conn checkENV)
        = (if MySQLdbStruct.Database conn = [] then Getenv w ''MYSQL_DATABASE''
           else MySQLdbStruct.Database conn)
   \<and> MySQLdbStruct.AutoCreate (overlay_environment w conn checkENV) = MySQLdbStruct.AutoCreate conn"
  by (simp add: overlay_environment_def Let_def)

lemma overlay_off:
  "checkENV = [] \<or> \<not> hd checkENV \<Longrightarrow> overlay_environment w conn checkENV = conn"
  by (auto simp: overlay_environment_def)

lemma Connect_keeps_fields:
  "MySQL_Connect w conn checkENV = (conn', err) \<Longrightarrow>
     conn'\<lparr>MySQLdbStruct.DB := None\<rparr>
       = (overlay_environment w conn checkENV)\<lparr>MySQLdbStruct.DB := None\<rparr>"
  by (auto simp: MySQL_Connect_def Let_def split: if_splits sum.splits)

lemma CheckDatabaseName_shop: "CheckDatabaseName ''shop''"
  by (simp add: CheckDatabaseName_def CheckTableName_chars is_letter_or_underscore_def
      is_identifier_char_def)

text \<open>
  Claim C5, as amended. With the flag true, \<open>Connect\<close> takes the host, the user and the
  password from \<open>MYSQL_HOST\<close>, \<open>MYSQL_USER\<close> and \<open>MYSQL_PWD\<close>, sets
  \<open>AllowNativePasswords\<close> to whether \<open>MYSQL_ALLOW_NATIVE_PASSWORDS\<close> reads \<open>true\<close>, and
  takes the database name from \<open>MYSQL_DATABASE\<close> when it is blank; the auto-create
  flag stays as the caller set it. With the flag absent or false, the result of
  \<open>Connect\<close> does not depend on the environment.
\<close>

theorem Connect_environment:
  "(checkENV \<noteq> [] \<and> hd checkENV \<longrightarrow>
      Host (fst (MySQL_Connect w conn checkENV)) = Getenv w ''MYSQL_HOST''
    \<and> MySQLdbStruct.User (fst (MySQL_Connect w conn checkENV)) = Getenv w ''MYSQL_USER''
    \<and> Password (fst (MySQL_Connect w conn checkENV)) = Getenv w ''MYSQL_PWD''
    \<and> MySQLdbStruct.AllowNativePasswords (fst (MySQL_Connect w conn checkENV))
         = (Getenv w ''MYSQL_ALLOW_NATIVE_PASSWORDS'' = ''true'')
    \<and> MySQLdbStruct.Database (fst (MySQL_Connect w conn checkENV))
         = (if MySQLdbStruct.Database conn = [] then Getenv w ''MYSQL_DATABASE''
            else MySQLdbStruct.Database conn)
    \<and> MySQLdbStruct.AutoCreate (fst (MySQL_Connect w conn checkENV)) = MySQLdbStruct.AutoCreate conn)
   \<and> (checkENV = [] \<or> \<not> hd checkENV \<longrightarrow>
        MySQL_Connect (w\<lparr>Getenv := other\<rparr>) conn checkENV = MySQL_Connect w conn checkENV)"
proof -
  obtain conn' err where c: "MySQL_Connect w conn checkENV = (conn', err)"
    by (cases "MySQL_Connect w conn checkENV")
  have same: "conn'\<lparr>MySQLdbStruct.DB := None\<rparr>
      = (overlay_environment w conn checkENV)\<lparr>MySQLdbStruct.DB := None\<rparr>"
    using Connect_keeps_fields [OF c] .
  have f: "Host conn' = Host (overlay_environment w conn checkENV)"
      "MySQLdbStruct.User conn' = MySQLdbStruct.User (overlay_environment w conn checkENV)"
      "Password conn' = Password (overlay_environment w conn checkENV)"
      "MySQLdbStruct.AllowNativePasswords conn'
         = MySQLdbStruct.AllowNativePasswords (overlay_environment w conn checkENV)"
      "MySQLdbStruct.Database conn' = MySQLdbStruct.Database (overlay_environment w conn checkENV)"
      "MySQLdbStruct.AutoCreate conn' = MySQLdbStruct.AutoCreate (overlay_environment w conn checkENV)"
    using same
    by (metis MySQLdbStruct.select_convs MySQLdbStruct.surjective MySQLdbStruct.update_convs)+
  have off: "checkENV = [] \<or> \<not> hd checkENV \<Longrightarrow>
      MySQL_Connect (w\<lparr>Getenv := other\<rparr>) conn checkENV = MySQL_Connect w conn checkENV"
    by (simp add: MySQL_Connect_def overlay_off Let_def)
  show ?thesis
    using overlay_fields [of checkENV w conn] off by (auto simp: c f)
qed

theorem Connect_environment_witness:
  "Host (fst (MySQL_Connect example_world example_conn [True])) = ''true''
   \<and> Password (fst (MySQL_Connect example_world example_conn [True])) = ''true''
   \<and> MySQLdbStruct.Database (fst (MySQL_Connect example_world example_conn [True])) = ''shop''
   \<and> MySQLdbStruct.AutoCreate (fst (MySQL_Connect example_world example_conn [True])) = False
   \<and> MySQL_Connect (example_world\<lparr>Getenv := (\<lambda>name. ''other'')\<rparr>) example_conn [False]
       = MySQL_Connect example_world example_conn [False]
   \<and> MySQL_Connect (example_world\<lparr>Getenv := (\<lambda>name. ''other'')\<rparr>) example_conn []
       = MySQL_Connect example_world example_conn []"
  using Connect_environment [of "[True]" example_world example_conn "\<lambda>name. ''other''"]
    Connect_environment [of "[False]" example_world example_conn "\<lambda>name. ''other''"]
    Connect_environment [of "[]" example_world example_conn "\<lambda>name. ''other''"]
  by (simp add: example_world_def example_conn_def)

text \<open>
  The claim as stated fails on the auto-create flag: with every environment variable
  reading \<open>true\<close> and the flag passed as true, \<open>AutoCreate\<close> stays false, while
  \<open>AllowNativePasswords\<close> and the host are taken from the environment.
\<close>

theorem Connect_environment_counterexample:
  "MySQLdbStruct.AutoCreate (fst (MySQL_Connect example_world example_conn [True])) = False
   \<and> MySQLdbStruct.AllowNativePasswords (fst (MySQL_Connect example_world example_conn [True])) = True
   \<and> Host (fst (MySQL_Connect example_world example_conn [True])) = ''true''"
  by (simp add: MySQL_Connect_def overlay_environment_def example_world_def example_conn_def
      CheckDatabaseName_shop Let_def)

section \<open>\<open>Connect\<close> (file-backed variant)\<close>













section \<open>\<open>ScanRows\<close> of the client-server variant\<close>

lemma ToUpper_examples:
  "ToUpper k ''int'' = ''INT''" "ToUpper k ''bool'' = ''BOOL''"
  "ToUpper k ''DECIMAL'' = ''DECIMAL''" "ToUpper k ''BLOB'' = ''BLOB''"
  "ToUpper k ''VARCHAR'' = ''VARCHAR''" "ToUpper k ''INT'' = ''INT''"
  by code_simp+

lemma coerce_coerced: "coerced_as k T b (coerce k T (VString b))"
  by (auto simp: coerced_as_def coerce_def integer_types_def float_types_def bytes_types_def
      bool_types_def ConvertToInt_def ConvertToFloat_def ConvertToBytes_def ConvertToBool_def
      is_integer_def is_float_def is_bytes_def is_boolean_def)

lemma MySQL_cell_Returned:
  "MySQL_cell k ct n x = Returned v \<Longrightarrow>
     \<exists>b. x = VBytes b \<and> v = coerce k (ToUpper k (case ct n of None \<Rightarrow> [] | Some t \<Rightarrow> t)) (VString b)"
  by (auto simp: MySQL_cell_def Let_def split: go_value.splits)

lemma MySQL_record_other:
  "MySQL_record k ct pairs r0 = Returned r \<Longrightarrow> n \<notin> fst ` set pairs \<Longrightarrow> r n = r0 n"
proof (induction pairs arbitrary: r0)
  case Nil
  then show ?case by simp
next
  case (Cons p pairs)
  obtain m x where p: "p = (m, x)" by (cases p)
  from Cons.prems(1) p obtain v where
    rest: "MySQL_record k ct pairs (r0(m \<mapsto> v)) = Returned r"
    by (auto split: outcome.splits)
  from Cons.prems(2) p have "n \<noteq> m" "n \<notin> fst ` set pairs" by auto
  with Cons.IH [OF rest] show ?case by simp
qed

lemma MySQL_record_dom:
  "MySQL_record k ct pairs r0 = Returned r \<Longrightarrow> dom r = dom r0 \<union> fst ` set pairs"
proof (induction pairs arbitrary: r0)
  case Nil
  then show ?case by simp
next
  case (Cons p pairs)
  obtain m x where p: "p = (m, x)" by (cases p)
  from Cons.prems(1) p obtain v where
    rest: "MySQL_record k ct pairs (r0(m \<mapsto> v)) = Returned r"
    by (auto split: outcome.splits)
  from Cons.IH [OF rest] p show ?case by auto
qed

lemma MySQL_record_cell:
  "MySQL_record k ct pairs r0 = Returned r \<Longrightarrow> j < length pairs \<Longrightarrow>
     \<exists>b. snd (pairs ! j) = VBytes b \<and>
       (fst (pairs ! j) \<notin> fst ` set (drop (Suc j) pairs) \<longrightarrow>
          r (fst (pairs ! j)) =
            Some (coerce k (ToUpper k (case ct (fst (pairs ! j)) of None \<Rightarrow> [] | Some t \<Rightarrow> t)) (VString b)))"
proof (induction pairs arbitrary: r0 j)
  case Nil
  then show ?case by simp
next
  case (Cons p pairs)
  obtain m x where p: "p = (m, x)" by (cases p)
  from Cons.prems(1) p obtain v where
    cell: "MySQL_cell k ct m x = Returned v" and
    rest: "MySQL_record k ct pairs (r0(m \<mapsto> v)) = Returned r"
    by (auto split: outcome.splits)
  show ?case
  proof (cases j)
    case 0
    from MySQL_cell_Returned [OF cell] obtain b where
      b: "x = VBytes b" "v = coerce k (ToUpper k (case ct m of None \<Rightarrow> [] | Some t \<Rightarrow> t)) (VString b)"
      by blast
    have "m \<notin> fst ` set pairs \<longrightarrow> r m = Some v"
      using MySQL_record_other [OF rest, of m] by simp
    with 0 p b show ?thesis by simp
  next
    case (Suc j')
    with Cons.prems(2) have "j' < length pairs" by simp
    from Cons.IH [OF rest this] Suc show ?thesis by simp
  qed
qed

lemma MySQL_record_returns:
  "list_all is_bytes (map snd pairs) \<Longrightarrow> \<exists>r. MySQL_record k ct pairs r0 = Returned r"
proof (induction pairs arbitrary: r0)
  case Nil
  then show ?case by simp
next
  case (Cons p pairs)
  obtain m x where p: "p = (m, x)" by (cases p)
  from Cons.prems p obtain b where "x = VBytes b"
    by (cases x) (auto simp: is_bytes_def)
  then obtain v where "MySQL_cell k ct m x = Returned v"
    by (simp add: MySQL_cell_def Let_def)
  moreover from Cons.prems have "list_all is_bytes (map snd pairs)" by simp
  from Cons.IH [OF this] obtain r where "MySQL_record k ct pairs (r0(m \<mapsto> v)) = Returned r"
    by blast
  ultimately show ?case using p by simp
qed

lemma length_scan_row: "length (scan_row columns current) = length columns"
  by (cases current) (auto simp: scan_row_def Scan_any_def)

lemma scan_row_cell:
  "j < length columns \<Longrightarrow> scan_row columns current ! j = VBytes b \<Longrightarrow>
     \<exists>vs. current = RowReady vs \<and> length vs = length columns \<and> vs ! j = VBytes b"
  by (cases current) (auto simp: scan_row_def Scan_any_def split: if_splits)

lemma scan_row_byte_row:
  "byte_row (length columns) current \<Longrightarrow>
     list_all is_bytes (map snd (zip columns (scan_row columns current)))"
  by (cases current) (auto simp: byte_row_def scan_row_def Scan_any_def)

lemma MySQL_scan_loop_step:
  "is_fetched current \<Longrightarrow>
   MySQL_scan_loop k ct columns (current # rest) =
     (case MySQL_record k ct (zip columns (scan_row columns current)) Map.empty of
        Panic \<Rightarrow> Panic
      | Returned r \<Rightarrow>
          (case MySQL_scan_loop k ct columns rest of
             Panic \<Rightarrow> Panic
           | Returned records \<Rightarrow> Returned (r # records)))"
  by (cases current) (simp_all add: is_fetched_def)

lemma MySQL_scan_loop_stop:
  "\<not> is_fetched current \<Longrightarrow> MySQL_scan_loop k ct columns (current # rest) = Returned []"
  by (cases current) (simp_all add: is_fetched_def)

lemma MySQL_scan_loop_records:
  "MySQL_scan_loop k ct columns fs = Returned records \<Longrightarrow>
     length records = length (takeWhile is_fetched fs)
     \<and> (\<forall>i < length records.
           MySQL_record k ct (zip columns (scan_row columns (takeWhile is_fetched fs ! i))) Map.empty
             = Returned (records ! i))"
proof (induction fs arbitrary: records)
  case Nil
  then show ?case by simp
next
  case (Cons current rest)
  show ?case
  proof (cases "is_fetched current")
    case False
    with Cons.prems show ?thesis by (simp add: MySQL_scan_loop_stop)
  next
    case True
    from Cons.prems obtain r1 rs where
      r1: "MySQL_record k ct (zip columns (scan_row columns current)) Map.empty = Returned r1" and
      rs: "MySQL_scan_loop k ct columns rest = Returned rs" and
      recs: "records = r1 # rs"
      unfolding MySQL_scan_loop_step [OF True] by (auto split: outcome.splits)
    from Cons.IH [OF rs] have
      len: "length rs = length (takeWhile is_fetched rest)" and
      each: "\<forall>i < length rs.
           MySQL_record k ct (zip columns (scan_row columns (takeWhile is_fetched rest ! i))) Map.empty
             = Returned (rs ! i)"
      by blast+
    show ?thesis
    proof (intro conjI allI impI)
      show "length records = length (takeWhile is_fetched (current # rest))"
        using True recs len by simp
    next
      fix i assume i: "i < length records"
      show "MySQL_record k ct
              (zip columns (scan_row columns (takeWhile is_fetched (current # rest) ! i))) Map.empty
            = Returned (records ! i)"
      proof (cases i)
        case 0
        with True recs r1 show ?thesis by simp
      next
        case (Suc i')
        with i recs have "i' < length rs" by simp
        with each Suc True recs show ?thesis by simp
      qed
    qed
  qed
qed

lemma MySQL_scan_loop_returns:
  "list_all (byte_row (length columns)) (takeWhile is_fetched fs) \<Longrightarrow>
     \<exists>records. MySQL_scan_loop k ct columns fs = Returned records"
proof (induction fs)
  case Nil
  then show ?case by simp
next
  case (Cons current rest)
  show ?case
  proof (cases "is_fetched current")
    case False
    then show ?thesis by (simp add: MySQL_scan_loop_stop)
  next
    case True
    with Cons.prems have row: "byte_row (length columns) current"
      and more: "list_all (byte_row (length columns)) (takeWhile is_fetched rest)"
      by simp_all
    from MySQL_record_returns [OF scan_row_byte_row [OF row]] obtain r where
      "MySQL_record k ct (zip columns (scan_row columns current)) Map.empty = Returned r"
      by blast
    moreover from Cons.IH [OF more] obtain rs where "MySQL_scan_loop k ct columns rest = Returned rs"
      by blast
    ultimately show ?thesis by (simp add: MySQL_scan_loop_step [OF True])
  qed
qed

lemma map_of_rev_last:
  "j < length xs \<Longrightarrow> fst (xs ! j) \<notin> set (map fst (drop (Suc j) xs)) \<Longrightarrow>
     map_of (rev xs) (fst (xs ! j)) = Some (snd (xs ! j))"
proof (induction xs arbitrary: j)
  case Nil
  then show ?case by simp
next
  case (Cons x xs)
  show ?case
  proof (cases j)
    case 0
    with Cons.prems have "fst x \<notin> fst ` set xs" by simp
    then have "map_of (rev xs) (fst x) = None"
      by (simp add: map_of_eq_None_iff)
    with 0 show ?thesis by (simp add: map_add_def)
  next
    case (Suc j')
    with Cons.prems have "j' < length xs" "fst (xs ! j') \<notin> set (map fst (drop (Suc j') xs))"
      by simp_all
    from Cons.IH [OF this] Suc show ?thesis by (simp add: map_add_def)
  qed
qed

lemma fold_update_map_of:
  "fold (\<lambda>(Name, Type) m. m(Name \<mapsto> Type)) xs m0 = m0 ++ map_of (rev xs)"
  by (induction xs arbitrary: m0) (auto simp: map_add_def fun_eq_iff split: option.splits)

lemma GetRowsInfo_type:
  assumes "GetRowsInfo rows = (info, ct, e)" and "\<not> closed rows"
    and "j < length (cols rows)" and "last_of_its_name (cols rows) j"
  shows "(case ct (fst (cols rows ! j)) of None \<Rightarrow> [] | Some t \<Rightarrow> t) = snd (cols rows ! j)"
  using assms map_of_rev_last [of j "cols rows"]
  by (auto simp: GetRowsInfo_def ColumnTypes_def fold_update_map_of last_of_its_name_def)

lemma zip_names:
  assumes "length scans = length columns"
  shows "fst ` set (zip columns scans) = set columns"
    and "fst ` set (drop n (zip columns scans)) = set (drop n columns)"
proof -
  have "map fst (zip columns scans) = columns" using assms by simp
  then have "set (map fst (zip columns scans)) = set columns" by simp
  then show "fst ` set (zip columns scans) = set columns" by simp
  have "map fst (drop n (zip columns scans)) = drop n columns"
    using assms by (simp add: drop_zip)
  then have "set (map fst (drop n (zip columns scans))) = set (drop n columns)" by simp
  then show "fst ` set (drop n (zip columns scans)) = set (drop n columns)" by simp
qed

lemma record_of_row:
  assumes r: "MySQL_record k ct (zip (map fst columns) (scan_row (map fst columns) current)) Map.empty
                = Returned r"
    and types: "\<And>j. j < length columns \<Longrightarrow> last_of_its_name columns j \<Longrightarrow>
                  (case ct (fst (columns ! j)) of None \<Rightarrow> [] | Some t \<Rightarrow> t) = snd (columns ! j)"
  shows "dom r = set (map fst columns)
     \<and> (\<forall>j < length columns.
           \<exists>vs b. current = RowReady vs \<and> length vs = length columns \<and> vs ! j = VBytes b
             \<and> (last_of_its_name columns j \<longrightarrow>
                   (\<exists>v. r (fst (columns ! j)) = Some v
                      \<and> coerced_as k (ToUpper k (snd (columns ! j))) b v)))"
proof (intro conjI allI impI)
  let ?names = "map fst columns"
  let ?scans = "scan_row ?names current"
  let ?pairs = "zip ?names ?scans"
  have len: "length ?scans = length ?names" by (rule length_scan_row)
  show "dom r = set ?names"
    using MySQL_record_dom [OF r] zip_names(1) [OF len] by simp
  fix j assume j: "j < length columns"
  then have jp: "j < length ?pairs" using len by simp
  have pj: "?pairs ! j = (fst (columns ! j), ?scans ! j)" using j len by simp
  from MySQL_record_cell [OF r jp] pj obtain b where
    b: "?scans ! j = VBytes b" and
    val: "fst (columns ! j) \<notin> fst ` set (drop (Suc j) ?pairs) \<longrightarrow>
          r (fst (columns ! j)) =
            Some (coerce k (ToUpper k (case ct (fst (columns ! j)) of None \<Rightarrow> [] | Some t \<Rightarrow> t))
                    (VString b))"
    by auto
  from j have "j < length ?names" by simp
  from scan_row_cell [OF this b] obtain vs where
    vs: "current = RowReady vs" "length vs = length columns" "vs ! j = VBytes b"
    by auto
  have names: "fst ` set (drop (Suc j) ?pairs) = set (map fst (drop (Suc j) columns))"
    using zip_names(2) [OF len, of "Suc j"] by (simp add: drop_map)
  have "last_of_its_name columns j \<longrightarrow>
          (\<exists>v. r (fst (columns ! j)) = Some v \<and> coerced_as k (ToUpper k (snd (columns ! j))) b v)"
  proof
    assume l: "last_of_its_name columns j"
    then have "fst (columns ! j) \<notin> fst ` set (drop (Suc j) ?pairs)"
      using names by (simp add: last_of_its_name_def)
    with val types [OF j l]
    have "r (fst (columns ! j)) = Some (coerce k (ToUpper k (snd (columns ! j))) (VString b))"
      by simp
    then show "\<exists>v. r (fst (columns ! j)) = Some v \<and> coerced_as k (ToUpper k (snd (columns ! j))) b v"
      using coerce_coerced by simp
  qed
  with vs show "\<exists>vs b. current = RowReady vs \<and> length vs = length columns \<and> vs ! j = VBytes b
             \<and> (last_of_its_name columns j \<longrightarrow>
                   (\<exists>v. r (fst (columns ! j)) = Some v
                      \<and> coerced_as k (ToUpper k (snd (columns ! j))) b v))"
    by blast
qed

lemma ScanRows_open:
  assumes "\<not> closed sqlRows"
  shows "\<exists>info ct. GetRowsInfo sqlRows = (info, ct, None)
     \<and> MySQL_ScanRows k conn sqlRows =
         (case MySQL_scan_loop k ct (map fst (cols sqlRows)) (fetches sqlRows) of
            Panic \<Rightarrow> Panic
          | Returned records \<Rightarrow> Returned (records, None))"
  using assms
  by (simp add: MySQL_ScanRows_def MySQL_GetRowsInfo_def GetRowsInfo_def ColumnTypes_def Columns_def)

lemma ScanRows_closed:
  "closed sqlRows \<Longrightarrow> MySQL_ScanRows k conn sqlRows = Returned ([], Some errRowsClosed)"
  by (simp add: MySQL_ScanRows_def MySQL_GetRowsInfo_def GetRowsInfo_def ColumnTypes_def Columns_def)

lemma ScanRows_cells:
  assumes s: "MySQL_ScanRows k conn sqlRows = Returned (records, err)" and o: "\<not> closed sqlRows"
  shows "err = None \<and> cells_coerced k sqlRows records"
proof -
  from ScanRows_open [OF o, of k conn] obtain info ct where
    g: "GetRowsInfo sqlRows = (info, ct, None)" and
    e: "MySQL_ScanRows k conn sqlRows =
         (case MySQL_scan_loop k ct (map fst (cols sqlRows)) (fetches sqlRows) of
            Panic \<Rightarrow> Panic
          | Returned records \<Rightarrow> Returned (records, None))"
    by blast
  from s e have loop: "MySQL_scan_loop k ct (map fst (cols sqlRows)) (fetches sqlRows) = Returned records"
    and err: "err = None"
    by (auto split: outcome.splits)
  from MySQL_scan_loop_records [OF loop] have
    len: "length records = length (scanned_rows sqlRows)" and
    each: "\<forall>i < length records.
           MySQL_record k ct
             (zip (map fst (cols sqlRows)) (scan_row (map fst (cols sqlRows)) (scanned_rows sqlRows ! i)))
             Map.empty = Returned (records ! i)"
    by (simp_all add: scanned_rows_def)
  have "\<forall>i < length records.
          dom (records ! i) = set (map fst (cols sqlRows))
          \<and> (\<forall>j < length (cols sqlRows).
                \<exists>vs b. scanned_rows sqlRows ! i = RowReady vs \<and> length vs = length (cols sqlRows)
                  \<and> vs ! j = VBytes b
                  \<and> (last_of_its_name (cols sqlRows) j \<longrightarrow>
                        (\<exists>v. (records ! i) (fst (cols sqlRows ! j)) = Some v
                           \<and> coerced_as k (ToUpper k (snd (cols sqlRows ! j))) b v)))"
  proof (intro allI impI)
    fix i assume "i < length records"
    with each have
      "MySQL_record k ct
         (zip (map fst (cols sqlRows)) (scan_row (map fst (cols sqlRows)) (scanned_rows sqlRows ! i)))
         Map.empty = Returned (records ! i)"
      by simp
    then show "dom (records ! i) = set (map fst (cols sqlRows))
          \<and> (\<forall>j < length (cols sqlRows).
                \<exists>vs b. scanned_rows sqlRows ! i = RowReady vs \<and> length vs = length (cols sqlRows)
                  \<and> vs ! j = VBytes b
                  \<and> (last_of_its_name (cols sqlRows) j \<longrightarrow>
                        (\<exists>v. (records ! i) (fst (cols sqlRows ! j)) = Some v
                           \<and> coerced_as k (ToUpper k (snd (cols sqlRows ! j))) b v)))"
      by (rule record_of_row) (rule GetRowsInfo_type [OF g o])
  qed
  with len err show ?thesis by (simp add: cells_coerced_def)
qed

lemma ScanRows_returns:
  assumes o: "\<not> closed sqlRows"
    and rows: "list_all (byte_row (length (cols sqlRows))) (scanned_rows sqlRows)"
  shows "\<exists>records. MySQL_ScanRows k conn sqlRows = Returned (records, None)"
proof -
  from ScanRows_open [OF o, of k conn] obtain info ct where
    e: "MySQL_ScanRows k conn sqlRows =
         (case MySQL_scan_loop k ct (map fst (cols sqlRows)) (fetches sqlRows) of
            Panic \<Rightarrow> Panic
          | Returned records \<Rightarrow> Returned (records, None))"
    by blast
  from rows have "list_all (byte_row (length (map fst (cols sqlRows))))
                    (takeWhile is_fetched (fetches sqlRows))"
    by (simp add: scanned_rows_def)
  from MySQL_scan_loop_returns [OF this] obtain records where
    "MySQL_scan_loop k ct (map fst (cols sqlRows)) (fetches sqlRows) = Returned records"
    by blast
  with e show ?thesis by simp
qed


lemma item_query_trimmed: "TrimSpace item_query = ''SELECT * FROM item;''"
  by (simp add: item_query_def TrimSpace_def TrimLeftSpace.simps TrimRightSpace.simps
      leading_space_def trailing_space_def white_space_def HasPrefix_def)

lemma dotless_int: "ToUpper reading_converters [CHR 0xC4, CHR 0xB1, CHR ''n'', CHR ''t''] = ''INT''"
  by code_simp

lemma reading:
  "as_int reading_converters (VString s) = of_nat (decimal s)"
  "as_float reading_converters (VString ''42.0'') = 0x4045000000000000"
  "as_float reading_converters (VString ''1.5'') = 0x3FF8000000000000"
  "as_bytes reading_converters (VString s) = s"
  "as_bool reading_converters v = (v = VString ''1'')"
  by (simp_all add: reading_converters_def)

lemma item_facts:
  "MySQLdbStruct.DB item_conn = Some item_handle"
  "db_Query item_handle ''SELECT * FROM item;'' [] = Inr example_rows"
  "closed closed_rows"
  by (simp_all add: item_conn_def item_handle_def closed_rows_def)

lemma decimals: "decimal ''42'' = 42" "decimal ''7'' = 7" "decimal ''3'' = 3" "decimal ''4'' = 4"
  by (simp_all add: decimal_def)

lemma example_scan:
  "MySQL_ScanRows reading_converters item_conn example_rows = Returned (example_records, None)"
  by (simp add: MySQL_ScanRows_def MySQL_GetRowsInfo_def GetRowsInfo_def ColumnTypes_def Columns_def
      example_rows_def example_records_def scan_row_def Scan_any_def
      MySQL_cell_def ToUpper_examples dotless_int coerce_def integer_types_def float_types_def
      bytes_types_def bool_types_def ConvertToInt_def ConvertToFloat_def ConvertToBytes_def
      ConvertToBool_def Let_def reading decimals)

lemma example_byte_rows:
  "\<not> closed example_rows \<and> list_all (byte_row (length (cols example_rows))) (scanned_rows example_rows)"
  by (simp add: example_rows_def scanned_rows_def is_fetched_def byte_row_def is_bytes_def)


text \<open>
  Claim C1. For an open cursor, the records that \<open>ScanRows\<close> of the client-server variant
  returns are, in the order of the rows, one for every row that the loop reaches; the
  names of each are the column names. The row of a record delivered a byte sequence for
  every column, and the value under the name of a column is the string of that byte
  sequence, converted as the uppercased declared type of the column says: by
  \<open>ConvertToInt\<close>, to an integer, for an integer type; by \<open>ConvertToFloat\<close>, to a float,
  for a decimal or float type; by \<open>ConvertToBytes\<close>, to raw bytes, for a binary type; by
  \<open>ConvertToBool\<close>, to a boolean, for a boolean type; and it is the string itself for any
  other type. \<open>INT\<close> gives an integer, \<open>DECIMAL\<close> a float, \<open>BLOB\<close> raw bytes. Of several
  columns of one name, the last gives the value. \<open>ScanRows\<close> returns when every row
  reached holds a byte sequence for each column; on a closed cursor it returns no record
  and the error of \<open>Columns\<close>. \<open>QueryRecords\<close> returns what \<open>ScanRows\<close> returns on the
  cursor of the trimmed query.
\<close>

theorem ScanRows_coerces_by_declared_type:
  "(\<not> closed sqlRows \<and> MySQL_ScanRows k conn sqlRows = Returned (records, err) \<longrightarrow>
      err = None \<and> cells_coerced k sqlRows records)
   \<and> (\<not> closed sqlRows \<and> list_all (byte_row (length (cols sqlRows))) (scanned_rows sqlRows) \<longrightarrow>
        (\<exists>rs. MySQL_ScanRows k conn sqlRows = Returned (rs, None)))
   \<and> (closed sqlRows \<longrightarrow> MySQL_ScanRows k conn sqlRows = Returned ([], Some errRowsClosed))
   \<and> (MySQLdbStruct.DB conn = Some db \<and> db_Query db (TrimSpace query) args = Inr sqlRows \<longrightarrow>
        MySQL_QueryRecords k conn query args = MySQL_ScanRows k conn sqlRows)"
proof (intro conjI impI)
  assume "\<not> closed sqlRows \<and> MySQL_ScanRows k conn sqlRows = Returned (records, err)"
  then have "err = None \<and> cells_coerced k sqlRows records"
    using ScanRows_cells [of k conn sqlRows records err] by blast
  then show "err = None" and "cells_coerced k sqlRows records" by blast+
next
  assume "\<not> closed sqlRows \<and> list_all (byte_row (length (cols sqlRows))) (scanned_rows sqlRows)"
  then show "\<exists>rs. MySQL_ScanRows k conn sqlRows = Returned (rs, None)"
    using ScanRows_returns [of sqlRows k conn] by blast
next
  assume "closed sqlRows"
  then show "MySQL_ScanRows k conn sqlRows = Returned ([], Some errRowsClosed)"
    by (rule ScanRows_closed)
next
  assume "MySQLdbStruct.DB conn = Some db \<and> db_Query db (TrimSpace query) args = Inr sqlRows"
  then show "MySQL_QueryRecords k conn query args = MySQL_ScanRows k conn sqlRows"
    by (simp add: MySQL_QueryRecords_def)
qed

theorem ScanRows_coerces_by_declared_type_witness:
  "\<not> closed example_rows
   \<and> list_all (byte_row (length (cols example_rows))) (scanned_rows example_rows)
   \<and> MySQL_ScanRows reading_converters item_conn example_rows = Returned (example_records, None)
   \<and> cells_coerced reading_converters example_rows example_records
   \<and> MySQL_QueryRecords reading_converters item_conn item_query [] = Returned (example_records, None)
   \<and> MySQL_ScanRows reading_converters item_conn closed_rows = Returned ([], Some errRowsClosed)"
  using ScanRows_coerces_by_declared_type
      [of example_rows reading_converters item_conn example_records None item_handle item_query "[]"]
    ScanRows_coerces_by_declared_type
      [of closed_rows reading_converters item_conn "[]" None item_handle item_query "[]"]
  by (simp add: example_scan example_byte_rows item_query_trimmed item_facts)


section \<open>A row that fails in \<open>ScanRows\<close>\<close>

text \<open>
  Claim C3 does not hold of the code. \<open>ScanRows\<close> drops the error of \<open>sqlRows.Scan\<close> and
  never asks \<open>sqlRows.Err()\<close>. When \<open>Scan\<close> fails on the second row, the file-backed
  variant appends a record of the untouched pointers and returns no error, and the
  client-server variant panics on the type assertion; when the driver fails to fetch the
  second row, both return the first record and no error. \<open>GetSQLTableInfo\<close>, in the same
  packages, does what the claim says: it stops and returns the rows read so far with the
  error of \<open>Scan\<close>.
\<close>

theorem ScanRows_loses_the_scan_error:
  "SQLite_ScanRows widen never_opened canceled_rows
     = ([[''id'' \<mapsto> VInt 1], [''id'' \<mapsto> VPtr 0]], None)
   \<and> SQLite_ScanRows widen never_opened broken_rows = ([[''id'' \<mapsto> VInt 1]], None)
   \<and> MySQL_ScanRows example_converters example_conn canceled_text_rows = Panic
   \<and> MySQL_ScanRows example_converters example_conn broken_text_rows
       = Returned ([[''id'' \<mapsto> VInt 42]], None)
   \<and> read_column_info example_conversions (Inr canceled_info_rows)
       = ([(1, ''id'', ''INTEGER'')], [''id'' \<mapsto> ''INTEGER''], Some (LibError ''context canceled''))"
  by (simp add: SQLite_ScanRows_def Columns_def canceled_rows_def broken_rows_def scan_row_def
      Scan_any_def SQLite_record_def narrow_def
      MySQL_ScanRows_def MySQL_GetRowsInfo_def GetRowsInfo_def ColumnTypes_def
      canceled_text_rows_def broken_text_rows_def example_converters_def
      MySQL_cell_def ToUpper_examples coerce_def integer_types_def ConvertToInt_def Let_def
      read_column_info_def Scan_column_info_def example_conversions_def canceled_info_rows_def)

section \<open>The log\<close>

lemma split_on_nonempty: "split_on sep s \<noteq> []"
  by (induction s) (auto split: list.splits)

lemma split_on_none: "sep \<notin> set f \<Longrightarrow> split_on sep f = [f]"
  by (induction f) auto

lemma split_on_append: "sep \<notin> set f \<Longrightarrow> split_on sep (f @ sep # rest) = f # split_on sep rest"
  by (induction f) auto

lemma split_join_tabs:
  "\<forall>f \<in> set fs. CHR 0x09 \<notin> set f \<Longrightarrow> fs \<noteq> [] \<Longrightarrow> split_on (CHR 0x09) (join_tabs fs) = fs"
proof (induction fs rule: join_tabs.induct)
  case 1
  then show ?case by simp
next
  case (2 field)
  then show ?case by (simp add: split_on_none)
next
  case (3 field v va)
  then show ?case by (simp add: split_on_append)
qed

lemma escape_controls_step:
  "escape_controls (c # cs) =
     (if c = CHR 0x5C then [CHR 0x5C, CHR 0x5C]
      else if c = CHR 0x09 then [CHR 0x5C, CHR ''t'']
      else if c = CHR 0x0A then [CHR 0x5C, CHR ''n'']
      else if c = CHR 0x0D then [CHR 0x5C, CHR ''r'']
      else [c]) @ escape_controls cs"
  by (simp add: escape_controls_def lookup_pair_def HasPrefix_def)

lemma escape_controls_Nil: "escape_controls [] = []"
  by (simp add: escape_controls_def)

lemma escape_bytes_append: "escape_bytes (xs @ ys) = escape_bytes xs @ escape_bytes ys"
  by (induction xs) auto

lemma escape_message: "escape_bytes (escape_controls msg) = concat (map escape_char msg)"
proof (induction msg)
  case Nil
  then show ?case by (simp add: escape_controls_Nil)
next
  case (Cons c msg)
  have one: "escape_bytes
     (if c = CHR 0x5C then [CHR 0x5C, CHR 0x5C]
      else if c = CHR 0x09 then [CHR 0x5C, CHR ''t'']
      else if c = CHR 0x0A then [CHR 0x5C, CHR ''n'']
      else if c = CHR 0x0D then [CHR 0x5C, CHR ''r'']
      else [c]) = escape_char c"
    by (simp add: escape_char_def printable_def)
  show ?case
    unfolding escape_controls_step escape_bytes_append one using Cons.IH by simp
qed

lemma hex_digits_printable: "\<forall>c \<in> set ''0123456789ABCDEF''. printable c"
  by (simp add: printable_def)

lemma digit_char_hex: "n < 16 \<Longrightarrow> digit_char n \<in> set ''0123456789ABCDEF''"
  unfolding digit_char_def by (rule nth_mem) simp

lemma digit_char_decimal: "n < 10 \<Longrightarrow> digit_char n \<in> set ''0123456789''"
proof -
  assume n: "n < 10"
  have "''0123456789ABCDEF'' = ''0123456789'' @ ''ABCDEF''" by simp
  then have "digit_char n = ''0123456789'' ! n"
    unfolding digit_char_def using n by (simp only: nth_append) simp
  moreover have "''0123456789'' ! n \<in> set ''0123456789''"
    by (rule nth_mem) (use n in simp)
  ultimately show ?thesis by simp
qed

lemma digits_decimal: "set (digits n) \<subseteq> set ''0123456789''"
proof (induction n rule: digits.induct)
  case (1 n)
  show ?case
  proof (cases "n < 10")
    case True
    then show ?thesis using digit_char_decimal [of n] by (subst digits.simps) simp
  next
    case False
    moreover have "digit_char (n mod 10) \<in> set ''0123456789''"
      by (rule digit_char_decimal) simp
    ultimately show ?thesis using 1 by (subst digits.simps) auto
  qed
qed

lemma digits_no_separator: "CHR 0x09 \<notin> set (digits n) \<and> CHR 0x0A \<notin> set (digits n)"
  using digits_decimal [of n] by auto

lemma format_d_no_separator: "CHR 0x09 \<notin> set (format_d n) \<and> CHR 0x0A \<notin> set (format_d n)"
  by (simp add: format_d_def digits_no_separator)

lemma format_02d_no_separator: "CHR 0x09 \<notin> set (format_02d n) \<and> CHR 0x0A \<notin> set (format_02d n)"
  by (simp add: format_02d_def digits_no_separator)

lemma escape_char_printable: "list_all printable (escape_char c)"
proof -
  have "(of_char c :: nat) < 16 * 16"
    using nat_of_char_less_256 [of c] by simp
  then have "(of_char c :: nat) div 16 < 16" "(of_char c :: nat) mod 16 < 16"
    by (simp_all add: less_mult_imp_div_less)
  then have "printable (digit_char ((of_char c :: nat) div 16))"
      "printable (digit_char ((of_char c :: nat) mod 16))"
    using hex_digits_printable digit_char_hex by blast+
  then show ?thesis
    by (simp add: escape_char_def format_02X_def printable_def)
qed

lemma message_printable: "list_all printable (concat (map escape_char msg))"
  by (induction msg) (simp_all add: escape_char_printable)

lemma printable_no_separator: "list_all printable f \<Longrightarrow> CHR 0x09 \<notin> set f \<and> CHR 0x0A \<notin> set f"
  by (auto simp: list_all_iff printable_def)

lemma log_line_fields:
  "log_line t (if callerOk c \<and> callerResolved c then TrimRight (fst (Split (callerFile c))) ''/'' else [])
      (if callerOk c \<and> callerResolved c then snd (Split (callerFile c)) else [])
      (callerLine c) (escape_bytes (escape_controls msg))
   = join_tabs (log_fields t c msg) @ [CHR 0x0A]"
  by (simp add: log_line_def log_fields_def escape_message)

lemma FileAppend_success:
  "snd (FileAppend fs p data) = None \<Longrightarrow>
     files (fst (FileAppend fs p data)) p
       = Some ((case files fs p of None \<Rightarrow> [] | Some old \<Rightarrow> old) @ data)
     \<and> LockValue (fst (FileAppend fs p data)) = LockValue fs"
  by (cases "open_error fs p"; cases "write_error fs p"; cases "data = []")
     (auto simp: FileAppend_def Let_def FromSlash_def lock_def unlock_def)

lemma Log_result:
  "Log fs t c msg =
     (case FileAppend (lock fs) ''/tmp/golang.log''
             ((if files fs ''/tmp/golang.log'' = None then header_line else [])
                @ join_tabs (log_fields t c msg) @ [CHR 0x0A]) of
        (fs', err) \<Rightarrow> (unlock fs', err))"
  unfolding log_line_fields [symmetric]
  by (simp add: Log_def Let_def FilePathExists_def FromSlash_def lock_def split: prod.splits)

lemma Split_parts: "set (fst (Split p)) \<subseteq> set p \<and> set (snd (Split p)) \<subseteq> set p"
  by (auto simp: Split_def Let_def dest: in_set_takeD set_takeWhileD)

lemma TrimRight_subset: "set (TrimRight s cutset) \<subseteq> set s"
  by (auto simp: TrimRight_def dest: set_dropWhileD)

lemma fields_no_separator:
  assumes "sep = CHR 0x09 \<or> sep = CHR 0x0A" and "sep \<notin> set (callerFile c)"
  shows "\<forall>f \<in> set (log_fields t c msg). sep \<notin> set f"
proof -
  have num: "\<And>n. sep \<notin> set (format_d n)" "\<And>n. sep \<notin> set (format_02d n)"
    using assms(1) format_d_no_separator format_02d_no_separator by blast+
  have msg: "sep \<notin> set (concat (map escape_char msg))"
    using assms(1) printable_no_separator [OF message_printable [of msg]] by blast
  have dir: "sep \<notin> set (TrimRight (fst (Split (callerFile c))) ''/'')"
    using assms(2) Split_parts [of "callerFile c"] TrimRight_subset [of "fst (Split (callerFile c))" "''/''"]
    by blast
  have name: "sep \<notin> set (snd (Split (callerFile c)))"
    using assms(2) Split_parts [of "callerFile c"] by blast
  show ?thesis
    using num msg dir name by (simp add: log_fields_def)
qed

lemma join_tabs_set:
  "\<forall>f \<in> set fs. sep \<notin> set f \<Longrightarrow> sep \<noteq> CHR 0x09 \<Longrightarrow> sep \<notin> set (join_tabs fs)"
  by (induction fs rule: join_tabs.induct) auto


lemma numbers:
  "format_d 1700000000000000 = ''1700000000000000''" "format_d 2023 = ''2023''" "format_02d 11 = ''11''"
  "format_02d 4 = ''04''" "format_02d 22 = ''22''" "format_02d 13 = ''13''" "format_02d 5 = ''05''"
  "format_d 12 = ''12''"
  by (simp_all add: format_d_def format_02d_def digits.simps digit_char_def)

lemma example_message_escaped:
  "concat (map escape_char example_message) =
     ''a'' @ [CHR 0x5C] @ ''tb'' @ [CHR 0x5C, CHR 0x5C] @ [CHR 0x5C] @ ''xE9'' @ [CHR 0x5C] @ ''n''"
  by (simp add: example_message_def escape_char_def printable_def format_02X_def digit_char_def)

lemma example_fields:
  "log_fields example_clock app_caller example_message =
     [''1700000000000000'', ''20231104'', ''221305'', ''/src/app'', ''main.go'', ''12'',
      ''a'' @ [CHR 0x5C] @ ''tb'' @ [CHR 0x5C, CHR 0x5C] @ [CHR 0x5C] @ ''xE9'' @ [CHR 0x5C] @ ''n'']"
  by (simp add: log_fields_def example_clock_def app_caller_def numbers example_message_escaped
      Split_def TrimRight_def Let_def)

lemma tab_fields:
  "log_fields example_clock tab_caller ''disk full'' =
     [''1700000000000000'', ''20231104'', ''221305'', ''/src/my'' @ [CHR 0x09] @ ''app'', ''main.go'', ''12'',
      ''disk full'']"
  by (simp add: log_fields_def example_clock_def tab_caller_def numbers escape_char_def printable_def
      Split_def TrimRight_def Let_def)

lemma example_log_ok: "snd (Log empty_filesystem example_clock app_caller example_message) = None"
  by (simp add: Log_result FileAppend_def empty_filesystem_def lock_def unlock_def Let_def FromSlash_def
      header_line_def split: prod.splits)

text \<open>
  Claim C9, as amended. Every call to \<open>Log\<close> that returns no error appends to
  \<open>/tmp/golang.log\<close> the seven fields of the entry, joined by tabs and ended by one line
  feed, after the header line when the file did not exist; it leaves the lock counter as
  it was. The seventh field is the message with backslash, tab, line feed and carriage
  return replaced by two-character escapes and every other byte outside the printable
  ASCII range by \<open>\xNN\<close>, so it holds printable ASCII only. The caller's path and
  filename are written as they are: when the caller's file name holds no tab and no line
  feed, the entry is one line that splits at its tabs into exactly the seven fields.
\<close>

theorem Log_appends_one_line:
  "snd (Log fs t c msg) = None \<longrightarrow>
     files (fst (Log fs t c msg)) ''/tmp/golang.log'' =
       Some ((case files fs ''/tmp/golang.log'' of None \<Rightarrow> header_line | Some old \<Rightarrow> old)
             @ join_tabs (log_fields t c msg) @ [CHR 0x0A])
     \<and> LockValue (fst (Log fs t c msg)) = LockValue fs
     \<and> length (log_fields t c msg) = 7
     \<and> log_fields t c msg ! 6 = concat (map escape_char msg)
     \<and> list_all printable (concat (map escape_char msg))
     \<and> (CHR 0x09 \<notin> set (callerFile c) \<and> CHR 0x0A \<notin> set (callerFile c) \<longrightarrow>
          split_on (CHR 0x09) (join_tabs (log_fields t c msg)) = log_fields t c msg
          \<and> CHR 0x0A \<notin> set (join_tabs (log_fields t c msg)))"
proof (intro impI)
  assume ok: "snd (Log fs t c msg) = None"
  let ?p = "''/tmp/golang.log''"
  let ?data = "(if files fs ?p = None then header_line else []) @ join_tabs (log_fields t c msg) @ [CHR 0x0A]"
  let ?a = "FileAppend (lock fs) ?p ?data"
  have res: "Log fs t c msg = (unlock (fst ?a), snd ?a)"
    by (simp add: Log_result split: prod.splits)
  with ok have a_ok: "snd ?a = None" by simp
  from FileAppend_success [OF a_ok]
  have content: "files (fst ?a) ?p = Some ((case files (lock fs) ?p of None \<Rightarrow> [] | Some old \<Rightarrow> old) @ ?data)"
    and lk: "LockValue (fst ?a) = LockValue (lock fs)"
    by blast+
  have 1: "files (fst (Log fs t c msg)) ?p =
       Some ((case files fs ?p of None \<Rightarrow> header_line | Some old \<Rightarrow> old)
             @ join_tabs (log_fields t c msg) @ [CHR 0x0A])"
    using content by (cases "files fs ?p") (simp_all add: res unlock_def lock_def)
  have 2: "LockValue (fst (Log fs t c msg)) = LockValue fs"
    using lk by (simp add: res unlock_def lock_def)
  have 3: "length (log_fields t c msg) = 7" "log_fields t c msg ! 6 = concat (map escape_char msg)"
    by (simp_all add: log_fields_def)
  have 4: "CHR 0x09 \<notin> set (callerFile c) \<and> CHR 0x0A \<notin> set (callerFile c) \<longrightarrow>
          split_on (CHR 0x09) (join_tabs (log_fields t c msg)) = log_fields t c msg
          \<and> CHR 0x0A \<notin> set (join_tabs (log_fields t c msg))"
  proof (intro impI conjI)
    assume h: "CHR 0x09 \<notin> set (callerFile c) \<and> CHR 0x0A \<notin> set (callerFile c)"
    have "log_fields t c msg \<noteq> []" using 3(1) by auto
    then show "split_on (CHR 0x09) (join_tabs (log_fields t c msg)) = log_fields t c msg"
      using split_join_tabs [of "log_fields t c msg"] fields_no_separator [of "CHR 0x09" c t msg] h
      by blast
    show "CHR 0x0A \<notin> set (join_tabs (log_fields t c msg))"
      using join_tabs_set [of "log_fields t c msg" "CHR 0x0A"] fields_no_separator [of "CHR 0x0A" c t msg] h
      by simp
  qed
  show "files (fst (Log fs t c msg)) ''/tmp/golang.log'' =
       Some ((case files fs ''/tmp/golang.log'' of None \<Rightarrow> header_line | Some old \<Rightarrow> old)
             @ join_tabs (log_fields t c msg) @ [CHR 0x0A])
     \<and> LockValue (fst (Log fs t c msg)) = LockValue fs
     \<and> length (log_fields t c msg) = 7
     \<and> log_fields t c msg ! 6 = concat (map escape_char msg)
     \<and> list_all printable (concat (map escape_char msg))
     \<and> (CHR 0x09 \<notin> set (callerFile c) \<and> CHR 0x0A \<notin> set (callerFile c) \<longrightarrow>
          split_on (CHR 0x09) (join_tabs (log_fields t c msg)) = log_fields t c msg
          \<and> CHR 0x0A \<notin> set (join_tabs (log_fields t c msg)))"
    using 1 2 3 4 message_printable [of msg] by blast
qed

theorem Log_appends_one_line_witness:
  "files (fst (Log empty_filesystem example_clock app_caller example_message)) ''/tmp/golang.log''
     = Some (header_line @
         ''1700000000000000'' @ [CHR 0x09] @ ''20231104'' @ [CHR 0x09] @ ''221305'' @ [CHR 0x09] @
         ''/src/app'' @ [CHR 0x09] @ ''main.go'' @ [CHR 0x09] @ ''12'' @ [CHR 0x09] @
         ''a'' @ [CHR 0x5C] @ ''tb'' @ [CHR 0x5C, CHR 0x5C] @ [CHR 0x5C] @ ''xE9'' @ [CHR 0x5C] @ ''n'' @
         [CHR 0x0A])
   \<and> split_on (CHR 0x09) (join_tabs (log_fields example_clock app_caller example_message))
     = [''1700000000000000'', ''20231104'', ''221305'', ''/src/app'', ''main.go'', ''12'',
        ''a'' @ [CHR 0x5C] @ ''tb'' @ [CHR 0x5C, CHR 0x5C] @ [CHR 0x5C] @ ''xE9'' @ [CHR 0x5C] @ ''n'']"
proof -
  have hyp: "CHR 0x09 \<notin> set (callerFile app_caller) \<and> CHR 0x0A \<notin> set (callerFile app_caller)"
    by (simp add: app_caller_def)
  have none: "files empty_filesystem ''/tmp/golang.log'' = None"
    by (simp add: empty_filesystem_def)
  have a: "files (fst (Log empty_filesystem example_clock app_caller example_message)) ''/tmp/golang.log''
      = Some ((case files empty_filesystem ''/tmp/golang.log'' of None \<Rightarrow> header_line | Some old \<Rightarrow> old)
             @ join_tabs (log_fields example_clock app_caller example_message) @ [CHR 0x0A])"
    and b: "split_on (CHR 0x09) (join_tabs (log_fields example_clock app_caller example_message))
      = log_fields example_clock app_caller example_message"
    using Log_appends_one_line [of empty_filesystem example_clock app_caller example_message]
      example_log_ok hyp by blast+
  show ?thesis
    unfolding a b none example_fields by simp
qed

text \<open>
  The claim as stated fails in two ways. Called from a source file with a tab in its
  path, \<open>Log\<close> writes an entry of eight tab-separated fields. And a call that cannot
  open the log file appends nothing: it returns the error.
\<close>

theorem Log_appends_one_line_counterexample:
  "snd (Log empty_filesystem example_clock tab_caller ''disk full'') = None
   \<and> files (fst (Log empty_filesystem example_clock tab_caller ''disk full'')) ''/tmp/golang.log''
     = Some (header_line @
         ''1700000000000000'' @ [CHR 0x09] @ ''20231104'' @ [CHR 0x09] @ ''221305'' @ [CHR 0x09] @
         ''/src/my'' @ [CHR 0x09] @ ''app'' @ [CHR 0x09] @ ''main.go'' @ [CHR 0x09] @ ''12'' @ [CHR 0x09] @
         ''disk full'' @ [CHR 0x0A])
   \<and> length (split_on (CHR 0x09)
         (''1700000000000000'' @ [CHR 0x09] @ ''20231104'' @ [CHR 0x09] @ ''221305'' @ [CHR 0x09] @
          ''/src/my'' @ [CHR 0x09] @ ''app'' @ [CHR 0x09] @ ''main.go'' @ [CHR 0x09] @ ''12'' @ [CHR 0x09] @
          ''disk full'')) = 8
   \<and> Log read_only_filesystem example_clock app_caller ''disk full''
     = (read_only_filesystem, Some (LibError ''permission denied''))"
  by (simp add: Log_result tab_fields FileAppend_def empty_filesystem_def read_only_filesystem_def
      lock_def unlock_def Let_def FromSlash_def header_line_def split: prod.splits)

end
